theory Spec2Isabelle
  imports Main "HOL-Library.Word"
begin

unbundle bit_operations_syntax

section \<open>Go values used by the client\<close>

text \<open>
  The client is one Go file, \<^verbatim>\<open>main.go\<close>.  Go's \<^verbatim>\<open>byte\<close>, \<^verbatim>\<open>int32\<close> and
  \<^verbatim>\<open>int64\<close> are words of that width (signed ones are read with \<open>sint\<close>); a string is a
  list of bytes; a slice is a list, the nil slice being the empty list (the code only
  ever asks a slice for its length and its elements).
\<close>

type_synonym byte = "8 word"
type_synonym int32 = "32 word"
type_synonym int64 = "64 word"

text \<open>Decimal digits, as \<^verbatim>\<open>%d\<close> prints them and \<^verbatim>\<open>strconv.Atoi\<close> reads them.\<close>

definition digit_char :: "nat \<Rightarrow> char" where
  "digit_char d = ''0123456789'' ! d"

definition is_digit :: "char \<Rightarrow> bool" where
  "is_digit c \<longleftrightarrow> 48 \<le> (of_char c :: nat) \<and> (of_char c :: nat) \<le> 57"

definition digit_val :: "char \<Rightarrow> nat" where
  "digit_val c = of_char c - 48"

function digits :: "nat \<Rightarrow> string" where
  "digits n = (if n < 10 then [digit_char n] else digits (n div 10) @ [digit_char (n mod 10)])"
  by pat_completeness auto
termination
  by (relation "measure id") auto

declare digits.simps [simp del]

definition itoa :: "int \<Rightarrow> string" where
  "itoa v = (if v < 0 then CHR ''-'' # digits (nat (- v)) else digits (nat v))"

section \<open>DeviceSpecBuilder: \<^verbatim>\<open>createScsiController\<close>, \<^verbatim>\<open>createVirtualDisk\<close>, \<^verbatim>\<open>createNetwork\<close>\<close>

text \<open>
  The three device kinds the client builds, with the fields it sets.  Every disk has
  disk mode persistent and is thin provisioned; the controller has no bus sharing.
\<close>

datatype VirtualDevice =
    ParaVirtualSCSIController (Key: int32) (BusNumber: int32)
  | VirtualDisk (Key: int32) (UnitNumber: int32) (ControllerKey: int32)
      (CapacityInKB: int64) (FileName: string)
  | VirtualVmxnet3 (Key: int32) (Backing: string)

type_synonym VirtualDeviceList = "VirtualDevice list"

text \<open>
  \<^verbatim>\<open>devices.NewKey()\<close> belongs to the govmomi library, which is not part of the
  repository: the builder takes it as the parameter \<open>NewKey\<close>.
\<close>

definition createScsiController ::
  "(VirtualDeviceList \<Rightarrow> int32) \<Rightarrow> VirtualDeviceList \<Rightarrow> VirtualDeviceList \<times> int32" where
  "createScsiController NewKey devices =
     (let scsiController = ParaVirtualSCSIController (NewKey devices) 0
      in (devices @ [scsiController], Key scsiController))"

definition createVirtualDisk ::
  "(VirtualDeviceList \<Rightarrow> int32) \<Rightarrow> nat \<Rightarrow> VirtualDeviceList \<Rightarrow> int64 \<Rightarrow> string \<Rightarrow> int32 \<Rightarrow> string
     \<Rightarrow> VirtualDeviceList" where
  "createVirtualDisk NewKey i devices diskSizeKB vmName scsictlKey datastore =
     (let unit0 = (word_of_nat i :: int32);
          unit = (if i \<ge> 7 then unit0 + 1 else unit0);
          filename =
            (if i = 0
             then ''['' @ datastore @ ''] '' @ vmName @ ''/'' @ vmName @ ''.vmdk''
             else ''['' @ datastore @ ''] '' @ vmName @ ''/'' @ vmName @ ''_'' @ itoa (int i) @ ''.vmdk'');
          disk = VirtualDisk (NewKey devices) unit scsictlKey (diskSizeKB * 1024 * 1024) filename
      in devices @ [disk])"

definition createNetwork ::
  "(VirtualDeviceList \<Rightarrow> int32) \<Rightarrow> VirtualDeviceList \<Rightarrow> string \<Rightarrow> VirtualDeviceList" where
  "createNetwork NewKey devices networkBacking =
     devices @ [VirtualVmxnet3 (NewKey devices) networkBacking]"

text \<open>One entry of \<^verbatim>\<open>vmparameter.storages\<close>.\<close>

record Storage =
  Datastore :: string
  CapacityGB :: int64

text \<open>
  The loop \<^verbatim>\<open>for i, datastore := range vmParam.Storages\<close> of \<^verbatim>\<open>vmCreateHandler\<close>;
  \<open>i\<close> is the index of the head of the storages still to go.
\<close>

fun addDisks ::
  "(VirtualDeviceList \<Rightarrow> int32) \<Rightarrow> string \<Rightarrow> int32 \<Rightarrow> nat \<Rightarrow> Storage list \<Rightarrow> VirtualDeviceList
     \<Rightarrow> VirtualDeviceList" where
  "addDisks NewKey hostname scsictlKey i [] devices = devices"
| "addDisks NewKey hostname scsictlKey i (datastore # rest) devices =
     addDisks NewKey hostname scsictlKey (Suc i) rest
       (createVirtualDisk NewKey i devices (CapacityGB datastore) hostname scsictlKey
          (Datastore datastore))"

text \<open>The controller and the disks of a new machine, as \<^verbatim>\<open>vmCreateHandler\<close> builds them.\<close>

definition diskDevices ::
  "(VirtualDeviceList \<Rightarrow> int32) \<Rightarrow> string \<Rightarrow> Storage list \<Rightarrow> VirtualDeviceList" where
  "diskDevices NewKey hostname storages =
     (let (devices, scsictlKey) = createScsiController NewKey []
      in addDisks NewKey hostname scsictlKey 0 storages devices)"

fun isDisk :: "VirtualDevice \<Rightarrow> bool" where
  "isDisk (VirtualDisk k u c cap f) = True"
| "isDisk _ = False"

text \<open>The unit numbers of the disks of a device list, in list order, as signed integers.\<close>

definition unitNumbers :: "VirtualDeviceList \<Rightarrow> int list" where
  "unitNumbers devices = map (\<lambda>d. sint (UnitNumber d)) (filter isDisk devices)"

text \<open>
  A key allocator to run the builder on: the smallest key in use, or -200 if that is
  smaller, minus one (what govmomi's \<^verbatim>\<open>NewKey\<close> computes).
\<close>

definition lowestKey :: "VirtualDeviceList \<Rightarrow> int32" where
  "lowestKey devices = foldl (\<lambda>key d. if Key d <s key then Key d else key) (- 200) devices - 1"

text \<open>
  The unit number the specification's sentence gives disk \<open>i\<close>: the index, bumped by
  one when the index equals the reserved number 7.
\<close>

definition spec_unit_number :: "nat \<Rightarrow> int" where
  "spec_unit_number i = (if i = 7 then int i + 1 else int i)"

section \<open>Configuration (\<^verbatim>\<open>ESXiConfig\<close>)\<close>

record Vcenter =
  Hostname :: string
  Username :: string
  Password :: string
  Datacenter :: string
  ResourcePool :: string
  Folder :: string

record Environment =
  Vcenter :: Vcenter
  KickstartServer :: string
  BootPortGroup :: string

record EsxiInfo =
  Replica :: int
  StartIP :: string
  Netmask :: string
  Gateway :: string
  NamePrefix :: string
  DomainName :: string
  EsxiPassword :: string
  Nameserver :: string
  Vlanid :: int
  Keyboard :: string
  Isofilename :: string
  Cli :: "string list"
  NotVmPgCreate :: bool

record Cpu =
  Core :: int32
  CorePerSocket :: int32

record BootOption =
  Firmware :: string
  SecureBoot :: bool

record VmParameter =
  Cpu :: Cpu
  MemoryGB :: int64
  Networks :: "string list"
  Storages :: "Storage list"
  BootOption :: BootOption

record ESXiConfig =
  Environment :: Environment
  EsxiInfo :: EsxiInfo
  VmParameter :: VmParameter

section \<open>How a run of the program can end early\<close>

text \<open>
  \<^verbatim>\<open>log.Fatalf\<close> prints its message and exits the process with status 1; a run-time
  panic (an index out of range, a nil dereference) in any goroutine crashes the
  process.  Both end every worker of the run.  A \<open>Fatal\<close> carries the message's format
  string.
\<close>

datatype abort = Fatal string | Panic string

section \<open>NamingSequenceGenerator: \<^verbatim>\<open>calcurateNamePrefix\<close>\<close>

text \<open>\<^verbatim>\<open>strings.Split(s, sep)\<close> for a separator of one character.\<close>

fun Split :: "string \<Rightarrow> char \<Rightarrow> string list" where
  "Split [] sep = [[]]"
| "Split (c # cs) sep =
     (if c = sep then [] # Split cs sep
      else (case Split cs sep of [] \<Rightarrow> [[c]] | p # ps \<Rightarrow> (c # p) # ps))"

text \<open>The value of a string of decimal digits.\<close>

definition decimal :: "string \<Rightarrow> nat" where
  "decimal ds = foldl (\<lambda>n c. n * 10 + digit_val c) 0 ds"

text \<open>
  \<^verbatim>\<open>strconv.Atoi\<close>: an optional sign, then one decimal digit or more and nothing else; the
  value has to fit Go's 64-bit \<^verbatim>\<open>int\<close>.  \<open>None\<close> is a non-nil error (bad syntax, or
  out of range).
\<close>

definition Atoi :: "string \<Rightarrow> int option" where
  "Atoi s =
     (let (neg, ds) =
            (case s of
               [] \<Rightarrow> (False, s)
             | c # cs \<Rightarrow>
                 if c = CHR ''-'' then (True, cs)
                 else if c = CHR ''+'' then (False, cs)
                 else (False, s))
      in if ds = [] \<or> \<not> list_all is_digit ds then None
         else (let v = (if neg then - int (decimal ds) else int (decimal ds))
               in if - (2 ^ 63) \<le> v \<and> v < 2 ^ 63 then Some v else None))"

text \<open>
  \<^verbatim>\<open>calcurateNamePrefix\<close>.  An index past the end of a slice is a run-time panic.
  The result's second component is a format string: \<^verbatim>\<open>fmt.Sprintf("%%0%dd", padding)\<close>
  is \<^verbatim>\<open>%0\<close>, the padding in decimal, and \<^verbatim>\<open>d\<close>.
\<close>

definition calcurateNamePrefix :: "string \<Rightarrow> abort + (int \<times> string)" where
  "calcurateNamePrefix namePrefix =
     (case Split namePrefix CHR ''{'' of
        [] \<Rightarrow> Inl (Panic ''index out of range [0] with length 0'')
      | [prefix] \<Rightarrow> Inl (Panic ''index out of range [1] with length 1'')
      | prefix # parts1 # _ \<Rightarrow>
          (case Split parts1 CHR ''}'' of
             [] \<Rightarrow> Inl (Panic ''index out of range [0] with length 0'')
           | formatDetails # _ \<Rightarrow>
               (case Split formatDetails CHR '','' of
                  [] \<Rightarrow> Inl (Panic ''index out of range [0] with length 0'')
                | start # options \<Rightarrow>
                    (case Atoi start of
                       None \<Rightarrow> Inl (Fatal
                         ''Error could not convert n to integer. Please confirm the name_prefix field of yaml file.: %s'')
                     | Some n \<Rightarrow>
                         (case options of
                            [] \<Rightarrow> Inr (n, prefix @ ''%0'' @ itoa 0 @ ''d'')
                          | fixed # _ \<Rightarrow>
                              (case Split fixed CHR ''='' of
                                 [] \<Rightarrow> Inl (Panic ''index out of range [1] with length 0'')
                               | [_] \<Rightarrow> Inl (Panic ''index out of range [1] with length 1'')
                               | _ # paddingStr # _ \<Rightarrow>
                                   (case Atoi paddingStr of
                                      None \<Rightarrow> Inl (Fatal
                                        ''Error could not convert fixed=n to integer. Please confirm the name_prefix field of yaml file.: %s'')
                                    | Some padding \<Rightarrow>
                                        Inr (n, prefix @ ''%0'' @ itoa padding @ ''d''))))))))"

subsection \<open>\<^verbatim>\<open>fmt.Sprintf\<close> with one \<^verbatim>\<open>int\<close> argument\<close>

text \<open>
  \<^verbatim>\<open>main\<close> formats every host name with \<^verbatim>\<open>fmt.Sprintf(format, j)\<close>, the format
  being built from the configuration.  The model covers the formats that are literal
  text, one verb \<^verbatim>\<open>%d\<close> with flags \<^verbatim>\<open>0\<close> and \<^verbatim>\<open>-\<close> and an optional width, and
  literal text again; on any other format it is \<open>None\<close> (not modelled).

  \<open>flags\<close> reads the flags: \<^verbatim>\<open>0\<close> asks for zero padding unless \<^verbatim>\<open>-\<close> was seen,
  \<^verbatim>\<open>-\<close> asks for left justification and switches zero padding off.  \<open>parsenum\<close> reads the
  width, giving up on a number that has passed one million with digits still to come.
\<close>

fun flags :: "bool \<Rightarrow> bool \<Rightarrow> string \<Rightarrow> (bool \<times> bool \<times> string) option" where
  "flags zeroFlag minusFlag [] = Some (zeroFlag, minusFlag, [])"
| "flags zeroFlag minusFlag (c # cs) =
     (if c = CHR ''0'' then flags (\<not> minusFlag) minusFlag cs
      else if c = CHR ''-'' then flags False True cs
      else if c = CHR ''#'' \<or> c = CHR ''+'' \<or> c = CHR '' '' then None
      else Some (zeroFlag, minusFlag, c # cs))"

fun parsenum :: "nat \<Rightarrow> bool \<Rightarrow> string \<Rightarrow> (nat \<times> bool \<times> string) option" where
  "parsenum num isnum [] = Some (num, isnum, [])"
| "parsenum num isnum (c # cs) =
     (if is_digit c
      then (if num > 1000000 then None else parsenum (num * 10 + digit_val c) True cs)
      else Some (num, isnum, c # cs))"

text \<open>
  \<^verbatim>\<open>%d\<close> of \<open>v\<close>: with the zero flag and a width, the digits are padded with zeros up
  to the width (one less for a negative number, whose sign takes a place); then the
  text is padded with spaces up to the width, on the right with the minus flag.
\<close>

definition fmtInteger :: "bool \<Rightarrow> bool \<Rightarrow> nat option \<Rightarrow> int \<Rightarrow> string" where
  "fmtInteger zeroFlag minusFlag wid v =
     (let negative = (v < 0);
          ds = digits (nat \<bar>v\<bar>);
          prec = (case wid of
                    None \<Rightarrow> 0
                  | Some w \<Rightarrow> if zeroFlag then (if negative then w - 1 else w) else 0);
          buf = (if negative then ''-'' else []) @ replicate (prec - length ds) CHR ''0'' @ ds
      in case wid of
           None \<Rightarrow> buf
         | Some w \<Rightarrow>
             if minusFlag then buf @ replicate (w - length buf) CHR '' ''
             else replicate (w - length buf) CHR '' '' @ buf)"

definition Sprintf :: "string \<Rightarrow> int \<Rightarrow> string option" where
  "Sprintf format v =
     (let lit = takeWhile (\<lambda>c. c \<noteq> CHR ''%'') format;
          rest = dropWhile (\<lambda>c. c \<noteq> CHR ''%'') format
      in case rest of
           [] \<Rightarrow> None
         | _ # verb \<Rightarrow>
             (case flags False False verb of
                None \<Rightarrow> None
              | Some (zeroFlag, minusFlag, r1) \<Rightarrow>
                  (case parsenum 0 False r1 of
                     None \<Rightarrow> None
                   | Some (wid, widPresent, r2) \<Rightarrow>
                       (case r2 of
                          [] \<Rightarrow> None
                        | c # tail \<Rightarrow>
                            if c = CHR ''d'' \<and> CHR ''%'' \<notin> set tail
                            then Some (lit @ fmtInteger zeroFlag minusFlag (if widPresent then Some wid else None) v
                                        @ tail)
                            else None))))"

section \<open>NetworkAddressAllocator: \<^verbatim>\<open>validateNetworkAddr\<close> and the addresses of \<^verbatim>\<open>main\<close>\<close>

text \<open>
  A \<^verbatim>\<open>net.IP\<close> and a \<^verbatim>\<open>net.IPMask\<close> are byte slices: 4 bytes, 16 bytes, or nil.  The
  methods \<^verbatim>\<open>To4\<close>, \<^verbatim>\<open>Mask\<close> and \<^verbatim>\<open>Equal\<close> are those of Go's package \<^verbatim>\<open>net\<close>.
\<close>

type_synonym IP = "byte list"

definition v4InV6Prefix :: "byte list" where
  "v4InV6Prefix = [0, 0, 0, 0, 0, 0, 0, 0, 0, 0, 0xff, 0xff]"

definition To4 :: "IP \<Rightarrow> IP" where
  "To4 ip =
     (if length ip = 4 then ip
      else if length ip = 16 \<and> list_all (\<lambda>b. b = 0) (take 10 ip) \<and> ip ! 10 = 0xff \<and> ip ! 11 = 0xff
      then drop 12 ip
      else [])"

definition allFF :: "byte list \<Rightarrow> bool" where
  "allFF b = list_all (\<lambda>c. c = 0xff) b"

definition Mask :: "IP \<Rightarrow> byte list \<Rightarrow> IP" where
  "Mask ip0 mask0 =
     (let mask = (if length mask0 = 16 \<and> length ip0 = 4 \<and> allFF (take 12 mask0)
                  then drop 12 mask0 else mask0);
          ip = (if length mask = 4 \<and> length ip0 = 16 \<and> take 12 ip0 = v4InV6Prefix
                then drop 12 ip0 else ip0)
      in if length ip \<noteq> length mask then [] else map2 (AND) ip mask)"

definition Equal :: "IP \<Rightarrow> IP \<Rightarrow> bool" where
  "Equal ip x =
     (if length ip = length x then ip = x
      else if length ip = 4 \<and> length x = 16 then take 12 x = v4InV6Prefix \<and> ip = drop 12 x
      else if length ip = 16 \<and> length x = 4 then take 12 ip = v4InV6Prefix \<and> drop 12 ip = x
      else False)"

text \<open>
  \<^verbatim>\<open>validateNetworkAddr\<close>; \<open>None\<close> is the nil error.  \<^verbatim>\<open>net.ParseIP\<close> is the
  parameter \<open>ParseIP\<close>: it gives the nil slice for text that is no IP address.
\<close>

definition validateNetworkAddr :: "(string \<Rightarrow> IP) \<Rightarrow> ESXiConfig \<Rightarrow> string option" where
  "validateNetworkAddr ParseIP esxiconfig =
     (let esxiInfo = EsxiInfo esxiconfig;
          startIPAddr = ParseIP (StartIP esxiInfo);
          netmaskAddr = To4 (ParseIP (Netmask esxiInfo));
          gatewayAddr = ParseIP (Gateway esxiInfo);
          network = Mask startIPAddr netmaskAddr;
          gwnetwork = Mask gatewayAddr netmaskAddr
      in if Equal gwnetwork network then None
         else Some ''Gateway and ESXi's IP are not on same subnet.'')"

text \<open>
  A parser to run the validation on: dotted decimal IPv4 text, four numbers up to 255
  separated by dots, as the 16-byte form \<^verbatim>\<open>net.ParseIP\<close> gives an IPv4 address;
  the nil slice for text of any other shape.
\<close>

definition dottedQuad :: "string \<Rightarrow> IP" where
  "dottedQuad s =
     (let fields = Split s CHR ''.''
      in if length fields = 4
            \<and> list_all (\<lambda>f. f \<noteq> [] \<and> length f \<le> 3 \<and> list_all is_digit f \<and> decimal f \<le> 255) fields
         then v4InV6Prefix @ map (\<lambda>f. word_of_nat (decimal f)) fields
         else [])"

text \<open>
  The address of replica \<open>i\<close> in \<^verbatim>\<open>main\<close>: a copy of the start address with
  \<^verbatim>\<open>ip[3] += byte(i)\<close>.  The index 3 is out of range when the start address is nil.
\<close>

definition allocateIP :: "IP \<Rightarrow> nat \<Rightarrow> abort + IP" where
  "allocateIP startIP i =
     (let ip = startIP
      in if length ip \<le> 3 then Inl (Panic ''index out of range [3] with length 0'')
         else Inr (ip[3 := ip ! 3 + word_of_nat i]))"

text \<open>Go's \<^verbatim>\<open>int\<close> has 64 bits: \<^verbatim>\<open>j+1\<close> wraps around.\<close>

definition wrap64 :: "int \<Rightarrow> int" where
  "wrap64 v = sint (word_of_int v :: 64 word)"

text \<open>
  The loop of \<^verbatim>\<open>main\<close> that starts the workers, \<open>k\<close> replicas still to go: the list
  of the host name and the address each worker is started with.
\<close>

fun startWorkers :: "string \<Rightarrow> IP \<Rightarrow> nat \<Rightarrow> int \<Rightarrow> nat \<Rightarrow> abort + (string option \<times> IP) list" where
  "startWorkers format startIP i j 0 = Inr []"
| "startWorkers format startIP i j (Suc k) =
     (let hostname = Sprintf format j
      in case allocateIP startIP i of
           Inl p \<Rightarrow> Inl p
         | Inr ip \<Rightarrow>
             (case startWorkers format startIP (Suc i) (wrap64 (j + 1)) k of
                Inl p \<Rightarrow> Inl p
              | Inr workers \<Rightarrow> Inr ((hostname, ip) # workers)))"

text \<open>\<^verbatim>\<open>main\<close>, from the parsed configuration to the workers it starts.\<close>

definition main :: "(string \<Rightarrow> IP) \<Rightarrow> ESXiConfig \<Rightarrow> abort + (string option \<times> IP) list" where
  "main ParseIP esxiconfig =
     (case validateNetworkAddr ParseIP esxiconfig of
        Some err \<Rightarrow> Inl (Fatal ''Error: Validate IP Address: %s'')
      | None \<Rightarrow>
          (let startIP = To4 (ParseIP (StartIP (EsxiInfo esxiconfig)))
           in case calcurateNamePrefix (NamePrefix (EsxiInfo esxiconfig)) of
                Inl a \<Rightarrow> Inl a
              | Inr (n, hostNamePrefix) \<Rightarrow>
                  startWorkers (hostNamePrefix @ ''.'' @ DomainName (EsxiInfo esxiconfig))
                    startIP 0 n (nat (Replica (EsxiInfo esxiconfig)))))"

section \<open>HostProvisioningWorker: \<^verbatim>\<open>vmCreateHandler\<close>\<close>

subsection \<open>Calls, replies and runs\<close>

text \<open>
  The worker talks to vCenter (through govmomi) and to the kickstart server (over
  HTTP).  Neither is part of the repository, so a run of the worker is modelled
  against a \<open>World\<close>: what each call of the run answers.  An error value is the
  \<^verbatim>\<open>find.NotFoundError\<close> the worker tests for, the \<^verbatim>\<open>context.Canceled\<close> of a cancelled
  run, or any other error.  \<^verbatim>\<open>url.Parse\<close> of Go's package \<^verbatim>\<open>net/url\<close> is the field
  \<open>urlParse\<close>: whether a text parses as a URL.
\<close>

datatype error = NotFoundError | Canceled | OtherError string

datatype task = CreateTask | PowerOnTask | RemoveTask | AddTask | EditTask

datatype operation = Add | Remove | Edit

text \<open>The installer registration record, \<^verbatim>\<open>RequestBody\<close>.\<close>

record RequestBody =
  reqMacaddress :: string
  reqPassword :: string
  reqHostname :: string
  reqIP :: string
  reqNetmask :: string
  reqGateway :: string
  reqNameserver :: string
  reqVlanid :: int
  reqKeyboard :: string
  reqIsofilename :: string
  reqCli :: "string list"
  reqNotVmPgCreate :: bool

text \<open>The fields of \<^verbatim>\<open>types.VirtualMachineConfigSpec\<close> the worker sets.\<close>

record VirtualMachineConfigSpec =
  Name :: string
  GuestId :: string
  NumCPUs :: int32
  NumCoresPerSocket :: int32
  NestedHVEnabled :: bool
  MemoryMB :: int64
  VmPathName :: string
  SpecFirmware :: string
  EfiSecureBootEnabled :: bool
  ExtraConfig :: "(string \<times> string) list"
  DeviceChange :: VirtualDeviceList

text \<open>
  The calls of the worker, each with the line of \<^verbatim>\<open>main.go\<close> that makes it.  The two
  network lookups after the installation (lines 318 and 319) are calls of their own:
  the code treats their errors differently from those of the lookups of lines 230
  and 234.
\<close>

datatype call =
    NewClient                                \<comment> \<open>132\<close>
  | FinderDatacenter string                  \<comment> \<open>137\<close>
  | FinderVirtualMachine string              \<comment> \<open>145\<close>
  | DatacenterFolders                        \<comment> \<open>158\<close>
  | FinderFolder string string               \<comment> \<open>166, the two parts of the joined path\<close>
  | FinderResourcePool string                \<comment> \<open>172\<close>
  | GetEsxiVersions                          \<comment> \<open>430\<close>
  | DecodeEsxiVersions                       \<comment> \<open>437, reading and decoding the response\<close>
  | FinderNetwork string                     \<comment> \<open>230\<close>
  | EthernetCardBackingInfo string           \<comment> \<open>234\<close>
  | CreateVM VirtualMachineConfigSpec        \<comment> \<open>246\<close>
  | WaitForResult task                       \<comment> \<open>252, 304, 358, 381, 414\<close>
  | DeviceProperties                         \<comment> \<open>263\<close>
  | PostKs RequestBody                       \<comment> \<open>296 (504)\<close>
  | PowerOn                                  \<comment> \<open>298\<close>
  | GuestProperties                          \<comment> \<open>472\<close>
  | FinalNetwork string                      \<comment> \<open>318\<close>
  | FinalBackingInfo                         \<comment> \<open>319\<close>
  | ShutdownGuest                            \<comment> \<open>323\<close>
  | RetrievePowerState                       \<comment> \<open>330\<close>
  | Reconfigure operation                    \<comment> \<open>352, 375, 409\<close>
  | PowerOnAgain                             \<comment> \<open>388\<close>
  | DeleteKs string                          \<comment> \<open>422 (516, 521), the MAC address\<close>

text \<open>One round of the \<^verbatim>\<open>select\<close> of \<^verbatim>\<open>waitForIP\<close>: the context is done, or the ticker
  fires and the guest property is read (an error, or the guest's IP address).\<close>

datatype tick = CtxDone | TickerC "error + string"

text \<open>A device of the created machine, as vCenter reports it.\<close>

datatype HardwareDevice = Vmxnet3 (Label: string) (MacAddress: string) | OtherDevice

record World =
  urlParse :: "string \<Rightarrow> error + unit"
  connect :: "error + unit"
  datacenter :: "error + unit"
  virtualMachine :: "string \<Rightarrow> error + unit"
  folders :: "error + string"
  folder :: "error + unit"
  resourcePool :: "error + unit"
  esxiVersionsGet :: "error + unit"
  esxiVersionsBody :: "error + (string \<times> string) list"
  network :: "nat \<Rightarrow> error + unit"
  backingInfo :: "nat \<Rightarrow> error + string"
  NewKey :: "VirtualDeviceList \<Rightarrow> int32"
  devicesConfigSpec :: "error + unit"
  createVM :: "error + unit"
  createTask :: "error + unit"
  deviceProperties :: "error + HardwareDevice list"
  postKs :: "error + string"
  powerOn :: "error + unit"
  powerOnTask :: "error + unit"
  guestIP :: "nat \<Rightarrow> tick"
  finalNetwork :: "error + unit"
  finalBackingInfo :: "error + string"
  shutdownGuest :: "error + unit"
  powerState :: "nat \<Rightarrow> error + bool"
  removeReconfigure :: "error + unit"
  removeTask :: "error + unit"
  addReconfigure :: "error + unit"
  addTask :: "error + unit"
  powerOnAgain :: "error + unit"
  guestIPAgain :: "nat \<Rightarrow> tick"
  editReconfigure :: "error + unit"
  editTask :: "error + unit"
  deleteKs :: "error + string"

text \<open>
  How a worker ends: it runs to its last line, it skips a machine that exists, it
  prints an error and returns (the other workers go on), or it ends the process.
\<close>

datatype outcome = Completed | Skipped | ReturnedError error | Aborted abort

text \<open>
  A run is the calls made, each with the error it returned if any, and how the code
  went on: it ended with an outcome (\<open>Some (Inl out)\<close>), it has a value to continue
  with (\<open>Some (Inr x)\<close>), or it never returns (\<open>None\<close>).  The only code that may
  not return is one of the two polling loops, and a loop that polls for ever has all
  its readings succeed: the calls of a run that never returns are those made before
  that loop.
\<close>

type_synonym event = "call \<times> error option"
type_synonym 'a run = "event list \<times> (outcome + 'a) option"

definition continue :: "'a \<Rightarrow> 'a run" where
  "continue x = ([], Some (Inr x))"

definition finish :: "outcome \<Rightarrow> 'a run" where
  "finish out = ([], Some (Inl out))"

definition fatalf :: "string \<Rightarrow> 'a run" where
  "fatalf msg = finish (Aborted (Fatal msg))"

definition errorOf :: "error + 'a \<Rightarrow> error option" where
  "errorOf r = (case r of Inl err \<Rightarrow> Some err | Inr _ \<Rightarrow> None)"

text \<open>A call hands its result, value or error, to the code after it.\<close>

definition perform :: "call \<Rightarrow> error + 'a \<Rightarrow> (error + 'a) run" where
  "perform c r = ([(c, errorOf r)], Some (Inr r))"

definition andThen :: "'a run \<Rightarrow> ('a \<Rightarrow> 'b run) \<Rightarrow> 'b run" where
  "andThen m f =
     (case m of
        (tr, None) \<Rightarrow> (tr, None)
      | (tr, Some (Inl out)) \<Rightarrow> (tr, Some (Inl out))
      | (tr, Some (Inr x)) \<Rightarrow> (case f x of (tr', r) \<Rightarrow> (tr @ tr', r)))"

subsection \<open>\<^verbatim>\<open>decideGuestId\<close>\<close>

text \<open>
  The decoded \<^verbatim>\<open>uploaded_esxi_list\<close> is a Go map: here the list of its entries in the
  order the \<^verbatim>\<open>range\<close> loop visits them (any order; the keys are distinct).  The loop
  leaves in \<open>esxiVersion\<close> the version of the entry whose file name is the configured
  one, and the empty string if there is none.
\<close>

definition esxiVersionOf :: "(string \<times> string) list \<Rightarrow> string \<Rightarrow> string" where
  "esxiVersionOf uploadedFiles isoName =
     foldl (\<lambda>esxiVersion (filename, version). if filename = isoName then version else esxiVersion)
       [] uploadedFiles"

definition guestIdOf :: "(string \<times> string) list \<Rightarrow> string \<Rightarrow> abort + string" where
  "guestIdOf uploadedFiles isoName =
     (let esxiVersion = esxiVersionOf uploadedFiles isoName
      in if esxiVersion = [] then Inl (Fatal ''Error: Iso file could not found on Kickstart Server.'')
         else if esxiVersion = ''6.0.0'' then Inr ''vmkernel6Guest''
         else if esxiVersion = ''6.5.0'' \<or> esxiVersion = ''6.7.0'' then Inr ''vmkernel65Guest''
         else Inr ''vmkernel7Guest'')"

definition decideGuestId :: "World \<Rightarrow> string \<Rightarrow> string run" where
  "decideGuestId w isoName =
     andThen (perform GetEsxiVersions (esxiVersionsGet w)) (\<lambda>resp.
       case resp of
         Inl err \<Rightarrow> fatalf ''Error: failed to send API request: %s''
       | Inr _ \<Rightarrow>
     andThen (perform DecodeEsxiVersions (esxiVersionsBody w)) (\<lambda>body.
       case body of
         Inl err \<Rightarrow> fatalf ''Error: failed to decode response body: %s''
       | Inr versions \<Rightarrow>
           (case guestIdOf versions isoName of
              Inl a \<Rightarrow> finish (Aborted a)
            | Inr guestId \<Rightarrow> continue guestId)))"

subsection \<open>\<^verbatim>\<open>waitForIP\<close> and the power-state poll\<close>

text \<open>
  \<^verbatim>\<open>waitForIP\<close> from round \<open>k\<close> of its \<^verbatim>\<open>select\<close> on: the number of rounds whose
  reading was made when it returns, and the error it returns (\<open>None\<close> is nil).  The
  loop has no bound: a run that never returns is \<open>None\<close>.
\<close>

partial_function (option) waitForIP :: "(nat \<Rightarrow> tick) \<Rightarrow> string \<Rightarrow> nat \<Rightarrow> (nat \<times> error option) option" where
  "waitForIP ticks targetIP k =
     (case ticks k of
        CtxDone \<Rightarrow> Some (k, Some Canceled)
      | TickerC (Inl err) \<Rightarrow> Some (Suc k, Some err)
      | TickerC (Inr ipAddress) \<Rightarrow>
          if ipAddress = targetIP then Some (Suc k, None)
          else waitForIP ticks targetIP (Suc k))"

declare waitForIP.simps [code]

text \<open>Round \<open>j\<close> reads an address that is not the target: the loop goes round again.\<close>

definition nonMatching :: "(nat \<Rightarrow> tick) \<Rightarrow> string \<Rightarrow> nat \<Rightarrow> bool" where
  "nonMatching ticks targetIP j =
     (case ticks j of TickerC (Inr ipAddress) \<Rightarrow> ipAddress \<noteq> targetIP | _ \<Rightarrow> False)"

text \<open>The guest-property readings of the first \<open>k\<close> rounds.\<close>

definition guestReads :: "(nat \<Rightarrow> tick) \<Rightarrow> nat \<Rightarrow> event list" where
  "guestReads ticks k =
     concat (map (\<lambda>j. case ticks j of CtxDone \<Rightarrow> [] | TickerC r \<Rightarrow> [(GuestProperties, errorOf r)])
       [0 ..< k])"

definition waitForIPRun :: "(nat \<Rightarrow> tick) \<Rightarrow> string \<Rightarrow> (error option) run" where
  "waitForIPRun ticks targetIP =
     (case waitForIP ticks targetIP 0 of
        None \<Rightarrow> ([], None)
      | Some (k, err) \<Rightarrow> (guestReads ticks k, Some (Inr err)))"

text \<open>
  The loop of lines 328 to 340: read the power state until it is powered off
  (\<open>True\<close>), sleeping in between.
\<close>

partial_function (option) waitPoweredOff :: "(nat \<Rightarrow> error + bool) \<Rightarrow> nat \<Rightarrow> (nat \<times> error option) option" where
  "waitPoweredOff states k =
     (case states k of
        Inl err \<Rightarrow> Some (Suc k, Some err)
      | Inr poweredOff \<Rightarrow>
          if poweredOff then Some (Suc k, None)
          else waitPoweredOff states (Suc k))"

declare waitPoweredOff.simps [code]

definition waitPoweredOffRun :: "(nat \<Rightarrow> error + bool) \<Rightarrow> (error option) run" where
  "waitPoweredOffRun states =
     (case waitPoweredOff states 0 of
        None \<Rightarrow> ([], None)
      | Some (k, err) \<Rightarrow>
          (map (\<lambda>j. (RetrievePowerState, errorOf (states j))) [0 ..< k], Some (Inr err)))"

subsection \<open>The machine's description\<close>

text \<open>
  \<^verbatim>\<open>ip.String()\<close> of the 4-byte address \<^verbatim>\<open>main\<close> hands the worker: dotted decimal.
  (\<^verbatim>\<open>main\<close> gives no address of another length; the nil address prints as
  \<^verbatim>\<open><nil>\<close>.)
\<close>

definition ipString :: "IP \<Rightarrow> string" where
  "ipString addr =
     (case addr of
        [a, b, c, d] \<Rightarrow>
          digits (unat a) @ ''.'' @ digits (unat b) @ ''.'' @ digits (unat c) @ ''.'' @ digits (unat d)
      | _ \<Rightarrow> ''<nil>'')"

text \<open>Lines 184 to 220: the configuration of the new machine, the devices still to come.\<close>

definition newConfigSpec :: "string \<Rightarrow> string \<Rightarrow> VmParameter \<Rightarrow> Storage \<Rightarrow> VirtualMachineConfigSpec" where
  "newConfigSpec vmName guestId vmParam storage0 =
     (let bootoption = BootOption vmParam;
          firmware = Firmware bootoption
      in \<lparr> Name = vmName,
           GuestId = guestId,
           NumCPUs = Core (Cpu vmParam),
           NumCoresPerSocket = CorePerSocket (Cpu vmParam),
           NestedHVEnabled = True,
           MemoryMB = MemoryGB vmParam * 1024,
           VmPathName = ''['' @ Datastore storage0 @ '']'',
           SpecFirmware =
             (if firmware = ''efi'' then ''efi''
              else if firmware = ''bios'' then ''bios''
              else if firmware = ''http-efi'' then ''efi''
              else []),
           EfiSecureBootEnabled =
             ((firmware = ''efi'' \<or> firmware = ''http-efi'') \<and> SecureBoot bootoption),
           ExtraConfig =
             (if firmware = ''http-efi'' then [(''networkBootProtocol'', ''httpv4'')] else []),
           DeviceChange = [] \<rparr>)"

text \<open>
  The loop of lines 226 to 239, \<open>i\<close> the index of the head of the networks still to
  go: the first adapter is bound to the boot port group.
\<close>

fun addNetworks :: "World \<Rightarrow> string \<Rightarrow> nat \<Rightarrow> string list \<Rightarrow> VirtualDeviceList \<Rightarrow> VirtualDeviceList run" where
  "addNetworks w bootPortGroup i [] devices = continue devices"
| "addNetworks w bootPortGroup i (name # rest) devices =
     (let portGroup = (if i = 0 then bootPortGroup else name)
      in andThen (perform (FinderNetwork portGroup) (network w i)) (\<lambda>net.
           case net of
             Inl err \<Rightarrow> fatalf ''Error Could not found the target network: %s''
           | Inr _ \<Rightarrow>
         andThen (perform (EthernetCardBackingInfo portGroup) (backingInfo w i)) (\<lambda>backing.
           case backing of
             Inl err \<Rightarrow> fatalf ''Error Could not get networking backing info: %s''
           | Inr networkBacking \<Rightarrow>
               addNetworks w bootPortGroup (Suc i) rest
                 (createNetwork (NewKey w) devices networkBacking))))"

text \<open>
  The loop of lines 270 to 292 leaves in \<^verbatim>\<open>data.Macaddress\<close> the MAC address of the
  last vmxnet3 adapter labelled \<^verbatim>\<open>Network adapter 1\<close> (its \<^verbatim>\<open>break\<close> leaves the
  \<^verbatim>\<open>switch\<close>, not the loop), and the empty string if there is none.
\<close>

definition bootMacaddress :: "HardwareDevice list \<Rightarrow> string" where
  "bootMacaddress devices =
     foldl (\<lambda>mac device.
              case device of
                Vmxnet3 label address \<Rightarrow> if label = ''Network adapter 1'' then address else mac
              | OtherDevice \<Rightarrow> mac)
       [] devices"

definition panic :: "string \<Rightarrow> 'a run" where
  "panic msg = finish (Aborted (Panic msg))"

definition nilDereference :: string where
  "nilDereference = ''invalid memory address or nil pointer dereference''"

subsection \<open>After the installation: lines 318 to 420\<close>

text \<open>
  The variable \<^verbatim>\<open>err\<close> is written out where the code reads it after a call whose own
  error it dropped (\<^verbatim>\<open>task, _ = newVM.Reconfigure(...)\<close>): the test that follows such a
  call sees the error of an earlier call.  A \<^verbatim>\<open>Reconfigure\<close> that failed leaves a nil
  task, and a lookup that failed a nil network; the method call on it panics.
\<close>

definition changeMac :: "World \<Rightarrow> string \<Rightarrow> unit run" where
  "changeMac w targetIP =
     andThen (perform ShutdownGuest (shutdownGuest w)) (\<lambda>r.
       if errorOf r \<noteq> None then fatalf ''Failed to shutting down VM: %v'' else
     andThen (waitPoweredOffRun (powerState w)) (\<lambda>err.
       if err \<noteq> None then fatalf ''Failed to retrieve %s info: %v'' else
     andThen (perform (Reconfigure Remove) (removeReconfigure w)) (\<lambda>task.
       if err \<noteq> None then fatalf ''Failed to change portgroup for boot network.: %v'' else
       case task of Inl _ \<Rightarrow> panic nilDereference | Inr _ \<Rightarrow>
     andThen (perform (WaitForResult RemoveTask) (removeTask w)) (\<lambda>r.
       let err = errorOf r in
       if err \<noteq> None then fatalf ''Failed to change portgroup for boot network.: %v'' else
     andThen (perform (Reconfigure Add) (addReconfigure w)) (\<lambda>task.
       if err \<noteq> None then fatalf ''Failed to change portgroup for boot network.: %v'' else
       case task of Inl _ \<Rightarrow> panic nilDereference | Inr _ \<Rightarrow>
     andThen (perform (WaitForResult AddTask) (addTask w)) (\<lambda>r.
       if errorOf r \<noteq> None then fatalf ''Failed to change portgroup for boot network.: %v'' else
     andThen (perform PowerOnAgain (powerOnAgain w)) (\<lambda>r.
       if errorOf r \<noteq> None then fatalf ''Failed to power off VM: %v'' else
     andThen (waitForIPRun (guestIPAgain w) targetIP) (\<lambda>err.
       if err \<noteq> None then fatalf ''Failed to wait for VM IP: %v'' else
       continue ()))))))))"

definition editInPlace :: "World \<Rightarrow> error option \<Rightarrow> unit run" where
  "editInPlace w err =
     andThen (perform (Reconfigure Edit) (editReconfigure w)) (\<lambda>task.
       if err \<noteq> None then fatalf ''Failed to change portgroup for boot network.: %v'' else
       case task of Inl _ \<Rightarrow> panic nilDereference | Inr _ \<Rightarrow>
     andThen (perform (WaitForResult EditTask) (editTask w)) (\<lambda>r.
       if errorOf r \<noteq> None then fatalf ''Failed to change portgroup for boot network.: %v'' else
       continue ()))"

definition reconfigureNetwork :: "World \<Rightarrow> string \<Rightarrow> VmParameter \<Rightarrow> bool \<Rightarrow> unit run" where
  "reconfigureNetwork w targetIP vmParam changemac =
     (case Networks vmParam of
        [] \<Rightarrow> panic ''index out of range [0] with length 0''
      | network0 # _ \<Rightarrow>
     andThen (perform (FinalNetwork network0) (finalNetwork w)) (\<lambda>newNet.
       case newNet of Inl _ \<Rightarrow> panic nilDereference | Inr _ \<Rightarrow>
     andThen (perform FinalBackingInfo (finalBackingInfo w)) (\<lambda>backing.
       let err = errorOf backing in
       if changemac then changeMac w targetIP else editInPlace w err)))"

subsection \<open>The worker\<close>

text \<open>Lines 184 to 296: build the machine, create it, find its boot adapter, register it.\<close>

definition createAndRegister ::
  "World \<Rightarrow> string \<Rightarrow> IP \<Rightarrow> ESXiConfig \<Rightarrow> string \<Rightarrow> RequestBody run" where
  "createAndRegister w vmName addr esxiconfig guestId =
     (let vmParam = VmParameter esxiconfig;
          esxiInfo = EsxiInfo esxiconfig
      in case Storages vmParam of
           [] \<Rightarrow> panic ''index out of range [0] with length 0''
         | storage0 # _ \<Rightarrow>
     (let configSpec = newConfigSpec vmName guestId vmParam storage0;
          (devices0, scsictlKey) = createScsiController (NewKey w) [];
          devices1 = addDisks (NewKey w) vmName scsictlKey 0 (Storages vmParam) devices0
      in
     andThen (addNetworks w (BootPortGroup (Environment esxiconfig)) 0 (Networks vmParam) devices1)
       (\<lambda>devices.
       if errorOf (devicesConfigSpec w) \<noteq> None then fatalf ''Failed to create ConfigSpec: %v'' else
     andThen (perform (CreateVM (configSpec\<lparr>DeviceChange := devices\<rparr>)) (createVM w)) (\<lambda>r.
       if errorOf r \<noteq> None then fatalf ''Failed to create VM: %v'' else
     andThen (perform (WaitForResult CreateTask) (createTask w)) (\<lambda>r.
       if errorOf r \<noteq> None then fatalf ''Failed to create VM: %v'' else
     andThen (perform DeviceProperties (deviceProperties w)) (\<lambda>props.
       case props of
         Inl err \<Rightarrow> fatalf ''Failed get object fot mac address: %v''
       | Inr hardware \<Rightarrow>
           (let mac = bootMacaddress hardware;
                data = \<lparr> reqMacaddress = mac,
                         reqPassword = EsxiPassword esxiInfo,
                         reqHostname = vmName,
                         reqIP = ipString addr,
                         reqNetmask = Netmask esxiInfo,
                         reqGateway = Gateway esxiInfo,
                         reqNameserver = Nameserver esxiInfo,
                         reqVlanid = Vlanid esxiInfo,
                         reqKeyboard = Keyboard esxiInfo,
                         reqIsofilename = Isofilename esxiInfo,
                         reqCli = Cli esxiInfo,
                         reqNotVmPgCreate = False \<rparr>
            in if mac = [] then fatalf ''Could not found mac address of boot network: %v'' else
     andThen (perform (PostKs data) (postKs w)) (\<lambda>resp.
       if errorOf resp \<noteq> None then fatalf ''Error: failed to send API request: %s'' else
       continue data))))))))"

text \<open>
  The text line 131 hands to \<^verbatim>\<open>url.Parse\<close>:
  \<^verbatim>\<open>fmt.Sprintf("https://%s:%s@%s/sdk", Username, Password, Hostname)\<close>.
\<close>

definition vcenterUrl :: "Vcenter \<Rightarrow> string" where
  "vcenterUrl vcInfo =
     ''https://'' @ Username vcInfo @ '':'' @ Password vcInfo @ ''@'' @ Hostname vcInfo @ ''/sdk''"

text \<open>
  \<^verbatim>\<open>vmCreateHandler\<close>.  A \<^verbatim>\<open>return\<close> after \<^verbatim>\<open>fmt.Println(err)\<close> ends this worker
  only; \<^verbatim>\<open>log.Fatalf\<close> ends the process.  The HTTP status of the kickstart server's
  answers is logged and not looked at.  The error of \<^verbatim>\<open>url.Parse\<close> is overwritten by
  the next line: when the text does not parse, \<^verbatim>\<open>vcUrl\<close> is nil and
  \<^verbatim>\<open>govmomi.NewClient\<close>, which reads the URL it is given, panics before it has
  reached vCenter.
\<close>

definition vmCreateHandler :: "World \<Rightarrow> string \<Rightarrow> IP \<Rightarrow> ESXiConfig \<Rightarrow> bool \<Rightarrow> unit run" where
  "vmCreateHandler w vmName addr esxiconfig changemac =
     (let vcInfo = Vcenter (Environment esxiconfig);
          vmParam = VmParameter esxiconfig;
          esxiInfo = EsxiInfo esxiconfig
      in
     case urlParse w (vcenterUrl vcInfo) of Inl _ \<Rightarrow> panic nilDereference | Inr _ \<Rightarrow>
     andThen (perform NewClient (connect w)) (\<lambda>si.
       if errorOf si \<noteq> None then fatalf ''Error Connect to vCenter: %s'' else
     andThen (perform (FinderDatacenter (Datacenter vcInfo)) (datacenter w)) (\<lambda>dc.
       case dc of Inl err \<Rightarrow> finish (ReturnedError err) | Inr _ \<Rightarrow>
     andThen (perform (FinderVirtualMachine vmName) (virtualMachine w vmName)) (\<lambda>vm.
       case vm of
         Inr _ \<Rightarrow> finish Skipped
       | Inl err \<Rightarrow>
           if err \<noteq> NotFoundError then finish (ReturnedError err) else
     andThen (perform DatacenterFolders (folders w)) (\<lambda>fs.
       case fs of Inl err \<Rightarrow> finish (ReturnedError err) | Inr vmFolderPath \<Rightarrow>
     andThen (perform (FinderFolder vmFolderPath (Folder vcInfo)) (folder w)) (\<lambda>targetFolder.
       case targetFolder of Inl err \<Rightarrow> finish (ReturnedError err) | Inr _ \<Rightarrow>
     andThen (perform (FinderResourcePool (ResourcePool vcInfo)) (resourcePool w)) (\<lambda>pool.
       case pool of Inl err \<Rightarrow> finish (ReturnedError err) | Inr _ \<Rightarrow>
     andThen (decideGuestId w (Isofilename esxiInfo)) (\<lambda>guestId.
     andThen (createAndRegister w vmName addr esxiconfig guestId) (\<lambda>data.
     andThen (perform PowerOn (powerOn w)) (\<lambda>r.
       if errorOf r \<noteq> None then fatalf ''Failed to start VM: %v'' else
     andThen (perform (WaitForResult PowerOnTask) (powerOnTask w)) (\<lambda>r.
       if errorOf r \<noteq> None then fatalf ''Failed to wait power on VM: %v'' else
     andThen (waitForIPRun (guestIP w) (ipString addr)) (\<lambda>err.
       if err \<noteq> None then fatalf ''Failed to wait for VM IP: %v'' else
     andThen (reconfigureNetwork w (ipString addr) vmParam changemac) (\<lambda>_.
     andThen (perform (DeleteKs (reqMacaddress data)) (deleteKs w)) (\<lambda>resp.
       if errorOf resp \<noteq> None then fatalf ''Error: failed to send API request: %s'' else
       finish Completed))))))))))))))"

text \<open>Whether an outcome ends the whole process, and with it every other worker.\<close>

definition processEnds :: "outcome \<Rightarrow> bool" where
  "processEnds out = (case out of Aborted _ \<Rightarrow> True | _ \<Rightarrow> False)"

text \<open>The calls that create, power, shut down or reconfigure a machine, or reach the
  kickstart server.\<close>

fun changesOrInstalls :: "call \<Rightarrow> bool" where
  "changesOrInstalls (CreateVM spec) = True"
| "changesOrInstalls PowerOn = True"
| "changesOrInstalls PowerOnAgain = True"
| "changesOrInstalls ShutdownGuest = True"
| "changesOrInstalls (Reconfigure operation) = True"
| "changesOrInstalls GetEsxiVersions = True"
| "changesOrInstalls DecodeEsxiVersions = True"
| "changesOrInstalls (PostKs data) = True"
| "changesOrInstalls (DeleteKs mac) = True"
| "changesOrInstalls _ = False"

text \<open>
  The calls whose error the worker prints before it returns, and the calls whose error
  it passes to \<^verbatim>\<open>log.Fatalf\<close>.  The calls in neither class are \<^verbatim>\<open>Reconfigure\<close>, whose
  error the code drops, and the two network lookups of lines 318 and 319, whose errors
  it overwrites.
\<close>

fun returnsOnError :: "call \<Rightarrow> bool" where
  "returnsOnError (FinderDatacenter name) = True"
| "returnsOnError (FinderVirtualMachine name) = True"
| "returnsOnError DatacenterFolders = True"
| "returnsOnError (FinderFolder path name) = True"
| "returnsOnError (FinderResourcePool name) = True"
| "returnsOnError _ = False"

fun fatalOnError :: "call \<Rightarrow> bool" where
  "fatalOnError NewClient = True"
| "fatalOnError GetEsxiVersions = True"
| "fatalOnError DecodeEsxiVersions = True"
| "fatalOnError (FinderNetwork name) = True"
| "fatalOnError (EthernetCardBackingInfo name) = True"
| "fatalOnError (CreateVM spec) = True"
| "fatalOnError (WaitForResult t) = True"
| "fatalOnError DeviceProperties = True"
| "fatalOnError (PostKs data) = True"
| "fatalOnError PowerOn = True"
| "fatalOnError GuestProperties = True"
| "fatalOnError ShutdownGuest = True"
| "fatalOnError RetrievePowerState = True"
| "fatalOnError PowerOnAgain = True"
| "fatalOnError (DeleteKs mac) = True"
| "fatalOnError _ = False"

text \<open>\<^verbatim>\<open>finder.VirtualMachine\<close> answering that there is no such machine is no failure.\<close>

definition notFoundVM :: "call \<Rightarrow> error \<Rightarrow> bool" where
  "notFoundVM c err = (case c of FinderVirtualMachine name \<Rightarrow> err = NotFoundError | _ \<Rightarrow> False)"

text \<open>
  What the worker does about a failed call \<open>c\<close> of a run that went on as \<open>res\<close>: it
  has returned the error, or ended the process with \<^verbatim>\<open>log.Fatalf\<close>, according to the
  class of \<open>c\<close>; a run that never returns has done neither.  A run keeps to this when
  each of its failed calls is accounted for.
\<close>

definition accounted :: "call \<Rightarrow> error \<Rightarrow> (outcome + 'a) option \<Rightarrow> bool" where
  "accounted c err res \<longleftrightarrow>
     (returnsOnError c \<and> \<not> notFoundVM c err \<longrightarrow> res = Some (Inl (ReturnedError err)))
     \<and> (fatalOnError c \<longrightarrow> (\<exists>msg. res = Some (Inl (Aborted (Fatal msg)))))"

definition policy :: "'a run \<Rightarrow> bool" where
  "policy r \<longleftrightarrow> (\<forall>c err. (c, Some err) \<in> set (fst r) \<longrightarrow> accounted c err (snd r))"

text \<open>A run that returns: it has an ending, or a value to go on with.\<close>

definition returns :: "'a run \<Rightarrow> bool" where
  "returns r \<longleftrightarrow> snd r \<noteq> None"

section \<open>A configuration and a world to run the model on\<close>

text \<open>
  Two hosts \<^verbatim>\<open>esxi01.lab.local\<close> and \<^verbatim>\<open>esxi02.lab.local\<close> from \<^verbatim>\<open>10.0.0.50\<close> on, and a
  world in which the vCenter URL parses, no machine exists yet, every call succeeds,
  the guest reports its address at the third reading and is powered off at the second.
\<close>

definition exampleConfig :: ESXiConfig where
  "exampleConfig =
     \<lparr> Environment =
         \<lparr> Vcenter = \<lparr> Hostname = ''vcenter.lab.local'', Username = ''administrator'',
                       Password = ''secret'', Datacenter = ''dc1'', ResourcePool = ''pool1'',
                       Folder = ''nested'' \<rparr>,
           KickstartServer = ''http://10.0.0.2:80'',
           BootPortGroup = ''boot-pg'' \<rparr>,
       EsxiInfo =
         \<lparr> Replica = 2, StartIP = ''10.0.0.50'', Netmask = ''255.255.255.0'',
           Gateway = ''10.0.0.1'', NamePrefix = ''esxi{1,fixed=2}'', DomainName = ''lab.local'',
           EsxiPassword = ''secret'', Nameserver = ''10.0.0.2'', Vlanid = 0, Keyboard = ''US Default'',
           Isofilename = ''esxi70.iso'', Cli = [], NotVmPgCreate = False \<rparr>,
       VmParameter =
         \<lparr> Cpu = \<lparr> Core = 4, CorePerSocket = 2 \<rparr>, MemoryGB = 16,
           Networks = [''pg1'', ''pg2''],
           Storages = [\<lparr> Datastore = ''datastore1'', CapacityGB = 32 \<rparr>],
           BootOption = \<lparr> Firmware = ''efi'', SecureBoot = False \<rparr> \<rparr> \<rparr>"

definition exampleWorld :: World where
  "exampleWorld =
     \<lparr> urlParse = (\<lambda>text. Inr ()), connect = Inr (), datacenter = Inr (),
       virtualMachine = (\<lambda>name. Inl NotFoundError),
       folders = Inr ''/dc1/vm'', folder = Inr (), resourcePool = Inr (),
       esxiVersionsGet = Inr (), esxiVersionsBody = Inr [(''esxi70.iso'', ''7.0.3'')],
       network = (\<lambda>i. Inr ()), backingInfo = (\<lambda>i. Inr ''backing''),
       NewKey = lowestKey, devicesConfigSpec = Inr (),
       createVM = Inr (), createTask = Inr (),
       deviceProperties = Inr [OtherDevice, Vmxnet3 ''Network adapter 1'' ''00:50:56:aa:bb:cc''],
       postKs = Inr ''200 OK'', powerOn = Inr (), powerOnTask = Inr (),
       guestIP = (\<lambda>k. if k < 2 then TickerC (Inr []) else TickerC (Inr ''10.0.0.50'')),
       finalNetwork = Inr (), finalBackingInfo = Inr ''backing'',
       shutdownGuest = Inr (), powerState = (\<lambda>k. Inr (1 \<le> k)),
       removeReconfigure = Inr (), removeTask = Inr (),
       addReconfigure = Inr (), addTask = Inr (), powerOnAgain = Inr (),
       guestIPAgain = (\<lambda>k. TickerC (Inr ''10.0.0.50'')),
       editReconfigure = Inr (), editTask = Inr (),
       deleteKs = Inr ''200 OK'' \<rparr>"

text \<open>The example configuration with other addresses.\<close>

definition withAddresses :: "string \<Rightarrow> string \<Rightarrow> string \<Rightarrow> ESXiConfig" where
  "withAddresses startText maskText gatewayText =
     exampleConfig \<lparr> EsxiInfo := (EsxiInfo exampleConfig)
       \<lparr> StartIP := startText, Netmask := maskText, Gateway := gatewayText \<rparr> \<rparr>"



section \<open>Device list construction\<close>

lemma unitNumbers_addDisks:
  "unitNumbers (addDisks newKey vmName k i storages devices) =
     unitNumbers devices @
     map (\<lambda>j. sint (if 7 \<le> j then word_of_nat j + 1 else word_of_nat j :: int32))
       [i ..< i + length storages]"
proof (induction storages arbitrary: i devices)
  case Nil
  then show ?case by simp
next
  case (Cons s ss)
  have one:
    "unitNumbers (createVirtualDisk newKey i devices (CapacityGB s) vmName k (Datastore s)) =
       unitNumbers devices @ [sint (if 7 \<le> i then word_of_nat i + 1 else word_of_nat i :: int32)]"
    by (simp add: createVirtualDisk_def unitNumbers_def Let_def)
  have range: "[i ..< i + length (s # ss)] = i # [Suc i ..< Suc i + length ss]"
    by (simp add: upt_rec [of i] del: upt_Suc)
  show ?case
    unfolding range using Cons.IH [of "Suc i"] one by simp
qed

lemma sint_unit:
  assumes "j < 2147483647"
  shows "sint (if 7 \<le> j then word_of_nat j + 1 else word_of_nat j :: int32)
           = (if 7 \<le> j then int j + 1 else int j)"
proof -
  have a: "sint (word_of_nat j :: int32) = int j"
    using assms by (simp add: signed_of_nat signed_take_bit_int_eq_self)
  have "sint (word_of_nat (Suc j) :: int32) = int (Suc j)"
    using assms by (simp add: signed_of_nat signed_take_bit_int_eq_self del: of_nat_Suc)
  then have b: "sint (word_of_nat j + 1 :: int32) = int j + 1"
    by (simp add: add.commute)
  show ?thesis using a b by simp
qed

lemma unitNumbers_diskDevices:
  assumes "length storages < 2147483647"
  shows "unitNumbers (diskDevices newKey vmName storages) =
           map (\<lambda>i. if 7 \<le> i then int i + 1 else int i) [0 ..< length storages]"
proof -
  have "unitNumbers (diskDevices newKey vmName storages) =
          map (\<lambda>j. sint (if 7 \<le> j then word_of_nat j + 1 else word_of_nat j :: int32))
            [0 ..< length storages]"
    by (simp add: diskDevices_def createScsiController_def unitNumbers_addDisks)
       (simp add: unitNumbers_def)
  also have "\<dots> = map (\<lambda>i. if 7 \<le> i then int i + 1 else int i) [0 ..< length storages]"
    using assms by (intro map_cong refl sint_unit) simp
  finally show ?thesis .
qed

text \<open>
  Claim C3, as the code has it.  For every list of storages (short enough for its
  indices to fit \<^verbatim>\<open>int32\<close>), the builder gives disk \<open>i\<close> the unit number \<open>i\<close> when
  \<open>i < 7\<close> and \<open>i + 1\<close> when \<open>7 \<le> i\<close>: every index from 7 on is bumped, not only index 7.
  No disk gets unit number 7, and 8 storages give the unit numbers 0, 1, 2, 3, 4, 5, 6, 8.
\<close>

theorem disk_unit_numbers:
  assumes "length storages < 2147483647"
  shows "unitNumbers (diskDevices newKey vmName storages) =
           map (\<lambda>i. if 7 \<le> i then int i + 1 else int i) [0 ..< length storages]
         \<and> 7 \<notin> set (unitNumbers (diskDevices newKey vmName storages))
         \<and> (length storages = 8 \<longrightarrow>
              unitNumbers (diskDevices newKey vmName storages) = [0, 1, 2, 3, 4, 5, 6, 8])"
proof -
  let ?u = "unitNumbers (diskDevices newKey vmName storages)"
  have eq: "?u = map (\<lambda>i. if 7 \<le> i then int i + 1 else int i) [0 ..< length storages]"
    using assms by (rule unitNumbers_diskDevices)
  have no7: "7 \<notin> set ?u"
    unfolding eq by auto
  have eight: "length storages = 8 \<Longrightarrow> ?u = [0, 1, 2, 3, 4, 5, 6, 8]"
    unfolding eq by (simp add: upt_rec)
  show ?thesis using eq no7 eight by blast
qed

theorem disk_unit_numbers_witness:
  "length (replicate 8 \<lparr>Datastore = ''datastore1'', CapacityGB = 16\<rparr>) < 2147483647
   \<and> unitNumbers (diskDevices lowestKey ''esxi001.lab.local''
        (replicate 8 \<lparr>Datastore = ''datastore1'', CapacityGB = 16\<rparr>)) = [0, 1, 2, 3, 4, 5, 6, 8]"
proof -
  let ?s = "replicate 8 \<lparr>Datastore = ''datastore1'', CapacityGB = 16\<rparr>"
  have len: "length ?s < 2147483647" by simp
  have "length ?s = 8" by simp
  with disk_unit_numbers [OF len, of lowestKey "''esxi001.lab.local''"]
  have "unitNumbers (diskDevices lowestKey ''esxi001.lab.local'' ?s) = [0, 1, 2, 3, 4, 5, 6, 8]"
    by blast
  with len show ?thesis by blast
qed

text \<open>
  The claim as worded (only an index equal to 7 is bumped) fails at the ninth of nine
  disks: its index is 8 and its unit number is 9.
\<close>

theorem disk_unit_numbers_counterexample:
  "unitNumbers (diskDevices lowestKey ''esxi001.lab.local''
        (replicate 9 \<lparr>Datastore = ''datastore1'', CapacityGB = 16\<rparr>)) ! 8 = 9
   \<and> spec_unit_number 8 = 8"
  by code_simp

section \<open>Network addresses\<close>

lemma To4_length: "length (To4 x) = 4 \<or> To4 x = []"
  by (simp add: To4_def)

lemma startWorkers_addresses:
  "startWorkers format startIP i j k = Inr ws \<Longrightarrow>
     map snd ws = map (\<lambda>m. startIP[3 := startIP ! 3 + word_of_nat (i + m)]) [0 ..< k]
     \<and> (0 < k \<longrightarrow> 3 < length startIP)"
proof (induction k arbitrary: i j ws)
  case 0
  then show ?case by simp
next
  case (Suc k)
  from Suc.prems obtain addr ws' where
    a: "allocateIP startIP i = Inr addr" and
    r: "startWorkers format startIP (Suc i) (wrap64 (j + 1)) k = Inr ws'" and
    ws: "ws = (Sprintf format j, addr) # ws'"
    by (auto simp: Let_def split: sum.splits)
  from a have len: "3 < length startIP" and addr: "addr = startIP[3 := startIP ! 3 + word_of_nat i]"
    by (auto simp: allocateIP_def Let_def split: if_splits)
  have range: "[0 ..< Suc k] = 0 # map Suc [0 ..< k]"
    by (simp add: upt_conv_Cons map_Suc_upt del: upt_Suc)
  from Suc.IH [OF r]
  have "map snd ws' = map (\<lambda>m. startIP[3 := startIP ! 3 + word_of_nat (Suc i + m)]) [0 ..< k]"
    by simp
  then show ?case
    unfolding range using ws addr len by (simp add: comp_def ac_simps)
qed

lemma unat_add_byte: "unat (a + word_of_nat i :: byte) = (unat a + i) mod 256"
  by (simp add: unat_word_ariths unat_of_nat mod_add_right_eq)

text \<open>With a start address of four bytes the loop of \<^verbatim>\<open>main\<close> starts every worker.\<close>

lemma startWorkers_returns:
  "3 < length startIP \<Longrightarrow> \<exists>ws. startWorkers format startIP i j k = Inr ws"
proof (induction k arbitrary: i j)
  case 0
  show ?case by simp
next
  case (Suc k)
  from Suc.IH [OF Suc.prems, of "Suc i" "wrap64 (j + 1)"] obtain ws where
    "startWorkers format startIP (Suc i) (wrap64 (j + 1)) k = Inr ws"
    by blast
  with Suc.prems show ?case
    by (simp add: allocateIP_def Let_def)
qed

text \<open>
  Claim C4.  Let the addresses pass the validation, the name template parse, and the
  start address be the IPv4 address \<open>a.b.c.d\<close>.  Then \<^verbatim>\<open>main\<close> rejects nothing: it
  starts one worker for each replica, whatever their number, and the address of
  replica \<open>i\<close> is the start address with its first three octets unchanged and its
  last octet incremented by \<open>i\<close> modulo 256, so that a sum past 255 wraps around.
\<close>

theorem allocated_address:
  assumes "validateNetworkAddr ParseIP esxiconfig = None"
    and "calcurateNamePrefix (NamePrefix (EsxiInfo esxiconfig)) = Inr (n, hostNamePrefix)"
    and "To4 (ParseIP (StartIP (EsxiInfo esxiconfig))) = [a, b, c, d]"
  shows "\<exists>workers. main ParseIP esxiconfig = Inr workers
           \<and> length workers = nat (Replica (EsxiInfo esxiconfig))
           \<and> (\<forall>i < nat (Replica (EsxiInfo esxiconfig)).
                 snd (workers ! i) = [a, b, c, d + word_of_nat i]
                 \<and> map unat (snd (workers ! i)) = [unat a, unat b, unat c, (unat d + i) mod 256])"
proof -
  let ?start = "[a, b, c, d]"
  let ?k = "nat (Replica (EsxiInfo esxiconfig))"
  let ?format = "hostNamePrefix @ ''.'' @ DomainName (EsxiInfo esxiconfig)"
  have "\<exists>ws. startWorkers ?format ?start 0 n ?k = Inr ws"
    by (rule startWorkers_returns) simp
  then obtain workers where sw: "startWorkers ?format ?start 0 n ?k = Inr workers"
    by blast
  with assms have run: "main ParseIP esxiconfig = Inr workers"
    by (simp add: main_def)
  from startWorkers_addresses [OF sw] have
    addrs: "map snd workers = map (\<lambda>m. ?start[3 := ?start ! 3 + word_of_nat m]) [0 ..< ?k]"
    by simp
  then have len: "length workers = ?k"
    by (metis length_map length_upt minus_nat.diff_0)
  have "snd (workers ! i) = [a, b, c, d + word_of_nat i]
        \<and> map unat (snd (workers ! i)) = [unat a, unat b, unat c, (unat d + i) mod 256]"
    if i: "i < ?k" for i
  proof -
    have "snd (workers ! i) = map snd workers ! i"
      using i len by simp
    also have "\<dots> = [a, b, c, d + word_of_nat i]"
      unfolding addrs using i by simp
    finally show ?thesis
      by (simp add: unat_add_byte)
  qed
  with run len show ?thesis by blast
qed

theorem allocated_address_witness:
  "validateNetworkAddr dottedQuad (withAddresses ''10.0.0.255'' ''255.255.255.0'' ''10.0.0.1'') = None
   \<and> To4 (dottedQuad ''10.0.0.255'') = [10, 0, 0, 255]
   \<and> (\<exists>workers. main dottedQuad (withAddresses ''10.0.0.255'' ''255.255.255.0'' ''10.0.0.1'')
                   = Inr workers
         \<and> length workers = 2
         \<and> map unat (snd (workers ! 0)) = [10, 0, 0, 255]
         \<and> map unat (snd (workers ! 1)) = [10, 0, 0, 0])"
proof -
  let ?c = "withAddresses ''10.0.0.255'' ''255.255.255.0'' ''10.0.0.1''"
  have valid: "validateNetworkAddr dottedQuad ?c = None"
    by code_simp
  have name: "calcurateNamePrefix (NamePrefix (EsxiInfo ?c)) = Inr (1, ''esxi%02d'')"
    by code_simp
  have st: "StartIP (EsxiInfo ?c) = ''10.0.0.255''" and two: "nat (Replica (EsxiInfo ?c)) = 2"
    by (simp_all add: withAddresses_def exampleConfig_def)
  have start: "To4 (dottedQuad ''10.0.0.255'') = [10, 0, 0, 255]"
    by code_simp
  from allocated_address [OF valid name, of 10 0 0 255] start st two
  obtain workers where run: "main dottedQuad ?c = Inr workers" and len: "length workers = 2"
    and addrs: "\<forall>i<2. map unat (snd (workers ! i))
                  = [unat (10 :: byte), unat (0 :: byte), unat (0 :: byte), (unat (255 :: byte) + i) mod 256]"
    by auto
  from addrs have "map unat (snd (workers ! 0)) = [10, 0, 0, 255]"
    and "map unat (snd (workers ! 1)) = [10, 0, 0, 0]"
    by simp_all
  with valid start run len show ?thesis by simp
qed

lemma v4_prefix_iff:
  assumes "length x = 16"
  shows "take 12 x = v4InV6Prefix \<longleftrightarrow>
         list_all (\<lambda>b. b = 0) (take 10 x) \<and> x ! 10 = 0xff \<and> x ! 11 = 0xff"
proof -
  obtain a0 a1 a2 a3 a4 a5 a6 a7 a8 a9 a10 a11 a12 a13 a14 a15 where
    x: "x = [a0, a1, a2, a3, a4, a5, a6, a7, a8, a9, a10, a11, a12, a13, a14, a15]"
    using assms by (auto simp: length_Suc_conv numeral_eq_Suc)
  show ?thesis
    unfolding x by (auto simp: v4InV6Prefix_def)
qed

lemma Mask_To4:
  assumes "To4 x = s" "length s = 4" "length m = 4"
  shows "Mask x m = map2 (AND) s m"
proof (cases "length x = 4")
  case True
  then show ?thesis using assms by (simp add: Mask_def To4_def)
next
  case False
  with assms have len: "length x = 16" and pre: "take 12 x = v4InV6Prefix" and s: "s = drop 12 x"
    by (auto simp: To4_def v4_prefix_iff split: if_splits)
  show ?thesis using len pre s assms(3) by (simp add: Mask_def)
qed

lemma Equal_same_length: "length a = length b \<Longrightarrow> Equal a b \<longleftrightarrow> a = b"
  by (simp add: Equal_def)

text \<open>
  Claim C5.  When the start address, the netmask and the gateway parse as IPv4
  addresses (\<^verbatim>\<open>To4\<close> of each is 4 bytes \<open>s\<close>, \<open>m\<close>, \<open>g\<close>), the validation succeeds
  exactly when \<open>g AND m\<close> is \<open>s AND m\<close>, and returns its error otherwise.
\<close>

theorem validateNetworkAddr_same_subnet:
  assumes "To4 (ParseIP (StartIP (EsxiInfo esxiconfig))) = s" and "length s = 4"
    and "To4 (ParseIP (Netmask (EsxiInfo esxiconfig))) = m" and "length m = 4"
    and "To4 (ParseIP (Gateway (EsxiInfo esxiconfig))) = g" and "length g = 4"
  shows "validateNetworkAddr ParseIP esxiconfig =
           (if map2 (AND) g m = map2 (AND) s m then None
            else Some ''Gateway and ESXi's IP are not on same subnet.'')"
proof -
  have net: "Mask (ParseIP (StartIP (EsxiInfo esxiconfig))) m = map2 (AND) s m"
    using assms by (intro Mask_To4) auto
  have gw: "Mask (ParseIP (Gateway (EsxiInfo esxiconfig))) m = map2 (AND) g m"
    using assms by (intro Mask_To4) auto
  have "Equal (map2 (AND) g m) (map2 (AND) s m) \<longleftrightarrow> map2 (AND) g m = map2 (AND) s m"
    using assms by (intro Equal_same_length) simp
  then show ?thesis
    using net gw assms(3) by (simp add: validateNetworkAddr_def Let_def)
qed

theorem validateNetworkAddr_same_subnet_witness:
  "validateNetworkAddr dottedQuad (withAddresses ''10.0.0.10'' ''255.255.255.0'' ''10.0.0.1'') = None
   \<and> validateNetworkAddr dottedQuad (withAddresses ''10.0.0.10'' ''255.255.255.0'' ''10.0.1.1'')
       = Some ''Gateway and ESXi's IP are not on same subnet.''"
proof -
  let ?same = "withAddresses ''10.0.0.10'' ''255.255.255.0'' ''10.0.0.1''"
  let ?other = "withAddresses ''10.0.0.10'' ''255.255.255.0'' ''10.0.1.1''"
  have s: "To4 (dottedQuad ''10.0.0.10'') = [10, 0, 0, 10]"
    and m: "To4 (dottedQuad ''255.255.255.0'') = [255, 255, 255, 0]"
    and g: "To4 (dottedQuad ''10.0.0.1'') = [10, 0, 0, 1]"
    and g': "To4 (dottedQuad ''10.0.1.1'') = [10, 0, 1, 1]"
    by code_simp+
  have "validateNetworkAddr dottedQuad ?same =
          (if map2 (AND) [10, 0, 0, 1] [255, 255, 255, 0 :: byte] = map2 (AND) [10, 0, 0, 10] [255, 255, 255, 0]
           then None else Some ''Gateway and ESXi's IP are not on same subnet.'')"
    by (rule validateNetworkAddr_same_subnet) (simp_all add: withAddresses_def s m g)
  then have same: "validateNetworkAddr dottedQuad ?same = None"
    by simp
  have "validateNetworkAddr dottedQuad ?other =
          (if map2 (AND) [10, 0, 1, 1] [255, 255, 255, 0 :: byte] = map2 (AND) [10, 0, 0, 10] [255, 255, 255, 0]
           then None else Some ''Gateway and ESXi's IP are not on same subnet.'')"
    by (rule validateNetworkAddr_same_subnet) (simp_all add: withAddresses_def s m g')
  then have other: "validateNetworkAddr dottedQuad ?other
                      = Some ''Gateway and ESXi's IP are not on same subnet.''"
    by simp
  from same other show ?thesis by blast
qed

text \<open>
  Claim C10.  When the start address, the netmask and the gateway all fail to parse
  (\<^verbatim>\<open>net.ParseIP\<close> gives the nil slice for each), the validation succeeds: both masked
  values are empty, and equal.
\<close>

theorem validateNetworkAddr_unparsable:
  assumes "ParseIP (StartIP (EsxiInfo esxiconfig)) = []"
    and "ParseIP (Netmask (EsxiInfo esxiconfig)) = []"
    and "ParseIP (Gateway (EsxiInfo esxiconfig)) = []"
  shows "validateNetworkAddr ParseIP esxiconfig = None"
  using assms by (simp add: validateNetworkAddr_def To4_def Mask_def Equal_def)

theorem validateNetworkAddr_unparsable_witness:
  "dottedQuad ''start'' = [] \<and> dottedQuad ''mask'' = [] \<and> dottedQuad ''gateway'' = []
   \<and> validateNetworkAddr dottedQuad (withAddresses ''start'' ''mask'' ''gateway'') = None"
proof -
  have s: "dottedQuad ''start'' = []" and m: "dottedQuad ''mask'' = []" and g: "dottedQuad ''gateway'' = []"
    by code_simp+
  have "validateNetworkAddr dottedQuad (withAddresses ''start'' ''mask'' ''gateway'') = None"
    by (rule validateNetworkAddr_unparsable) (simp_all add: withAddresses_def s m g)
  with s m g show ?thesis by blast
qed

section \<open>Guest-OS identifier\<close>

lemma esxiVersionOf_foldl:
  "distinct (map fst ups) \<Longrightarrow>
   foldl (\<lambda>esxiVersion (filename, version). if filename = isoName then version else esxiVersion) acc ups
     = (case map_of ups isoName of None \<Rightarrow> acc | Some v \<Rightarrow> v)"
proof (induction ups arbitrary: acc)
  case Nil
  then show ?case by simp
next
  case (Cons kv rest)
  obtain k v where kv: "kv = (k, v)" by (cases kv)
  from Cons.prems kv have d: "distinct (map fst rest)" and nk: "k \<notin> fst ` set rest" by auto
  show ?case
  proof (cases "k = isoName")
    case True
    with nk have "map_of rest isoName = None" by (simp add: map_of_eq_None_iff)
    with True kv Cons.IH [OF d] show ?thesis by simp
  next
    case False
    with kv Cons.IH [OF d] show ?thesis by simp
  qed
qed

lemma esxiVersionOf_map_of:
  "distinct (map fst ups) \<Longrightarrow>
   esxiVersionOf ups isoName = (case map_of ups isoName of None \<Rightarrow> [] | Some v \<Rightarrow> v)"
  unfolding esxiVersionOf_def by (rule esxiVersionOf_foldl)

text \<open>
  Claim C7, as the code has it.  With the catalog fetched and decoded,
  \<^verbatim>\<open>decideGuestId\<close> ends the process with a fatal error when the file name is absent
  from the catalog or its version is the empty string; it gives \<^verbatim>\<open>vmkernel6Guest\<close>
  for version 6.0.0, \<^verbatim>\<open>vmkernel65Guest\<close> for 6.5.0 and 6.7.0, and \<^verbatim>\<open>vmkernel7Guest\<close>
  for any other non-empty version.
\<close>

theorem decideGuestId_catalog:
  assumes "esxiVersionsGet w = Inr ()" and "esxiVersionsBody w = Inr uploadedFiles"
    and "distinct (map fst uploadedFiles)"
  shows "decideGuestId w isoName =
           ([(GetEsxiVersions, None), (DecodeEsxiVersions, None)],
            Some (case map_of uploadedFiles isoName of
                None \<Rightarrow> Inl (Aborted (Fatal ''Error: Iso file could not found on Kickstart Server.''))
              | Some version \<Rightarrow>
                  if version = [] then
                    Inl (Aborted (Fatal ''Error: Iso file could not found on Kickstart Server.''))
                  else if version = ''6.0.0'' then Inr ''vmkernel6Guest''
                  else if version = ''6.5.0'' \<or> version = ''6.7.0'' then Inr ''vmkernel65Guest''
                  else Inr ''vmkernel7Guest''))"
proof -
  have v: "esxiVersionOf uploadedFiles isoName
             = (case map_of uploadedFiles isoName of None \<Rightarrow> [] | Some v \<Rightarrow> v)"
    using assms(3) by (rule esxiVersionOf_map_of)
  show ?thesis
  proof (cases "map_of uploadedFiles isoName")
    case None
    with v assms(1,2) show ?thesis
      by (simp add: decideGuestId_def guestIdOf_def andThen_def perform_def errorOf_def
          finish_def continue_def fatalf_def)
  next
    case (Some version)
    with v assms(1,2) show ?thesis
      by (simp add: decideGuestId_def guestIdOf_def andThen_def perform_def errorOf_def
          finish_def continue_def fatalf_def Let_def)
  qed
qed

theorem decideGuestId_catalog_witness:
  "decideGuestId exampleWorld ''esxi70.iso''
     = ([(GetEsxiVersions, None), (DecodeEsxiVersions, None)], Some (Inr ''vmkernel7Guest''))
   \<and> decideGuestId exampleWorld ''esxi80.iso''
     = ([(GetEsxiVersions, None), (DecodeEsxiVersions, None)],
        Some (Inl (Aborted (Fatal ''Error: Iso file could not found on Kickstart Server.''))))"
proof -
  have g: "esxiVersionsGet exampleWorld = Inr ()"
    and b: "esxiVersionsBody exampleWorld = Inr [(''esxi70.iso'', ''7.0.3'')]"
    by (simp_all add: exampleWorld_def)
  have d: "distinct (map fst [(''esxi70.iso'', ''7.0.3'')])"
    by simp
  from decideGuestId_catalog [OF g b d, of "''esxi70.iso''"]
       decideGuestId_catalog [OF g b d, of "''esxi80.iso''"]
  show ?thesis by simp
qed

text \<open>
  The claim as worded (any other version that is present gives the newest identifier)
  fails for a file that is in the catalog with the empty string as its version.
\<close>

theorem decideGuestId_catalog_counterexample:
  "map_of [(''esxi70.iso'', [])] ''esxi70.iso'' = Some []
   \<and> decideGuestId (exampleWorld \<lparr> esxiVersionsBody := Inr [(''esxi70.iso'', [])] \<rparr>) ''esxi70.iso''
       = ([(GetEsxiVersions, None), (DecodeEsxiVersions, None)],
          Some (Inl (Aborted (Fatal ''Error: Iso file could not found on Kickstart Server.''))))"
  by (simp add: decideGuestId_def guestIdOf_def esxiVersionOf_def andThen_def perform_def
      errorOf_def finish_def fatalf_def exampleWorld_def)

section \<open>Host names\<close>

text \<open>
  Claim C9 fails on the code for a template without \<^verbatim>\<open>{\<close>, and for one whose
  \<^verbatim>\<open>fixed\<close> has no \<^verbatim>\<open>=\<close>: \<^verbatim>\<open>calcurateNamePrefix\<close> indexes past the end of the slice
  \<^verbatim>\<open>strings.Split\<close> returned, a run-time panic, where a start or a width that is not
  an integer is reported with \<^verbatim>\<open>log.Fatalf\<close>.
\<close>

theorem calcurateNamePrefix_without_group:
  "calcurateNamePrefix ''esxi'' = Inl (Panic ''index out of range [1] with length 1'')
   \<and> calcurateNamePrefix ''esxi{1,fixed}'' = Inl (Panic ''index out of range [1] with length 1'')
   \<and> calcurateNamePrefix ''esxi{one}'' = Inl (Fatal
        ''Error could not convert n to integer. Please confirm the name_prefix field of yaml file.: %s'')
   \<and> calcurateNamePrefix ''esxi{1,fixed=three}'' = Inl (Fatal
        ''Error could not convert fixed=n to integer. Please confirm the name_prefix field of yaml file.: %s'')"
  by code_simp

section \<open>Waiting for the guest's address\<close>

lemma nonMatchingE:
  assumes "nonMatching ticks targetIP j"
  obtains a where "ticks j = TickerC (Inr a)" and "a \<noteq> targetIP"
  using assms by (auto simp: nonMatching_def split: tick.splits sum.splits)

lemma waitForIP_step:
  assumes "nonMatching ticks targetIP k"
  shows "waitForIP ticks targetIP k = waitForIP ticks targetIP (Suc k)"
proof -
  from assms obtain a where a: "ticks k = TickerC (Inr a)" "a \<noteq> targetIP"
    by (rule nonMatchingE)
  show ?thesis
    by (subst waitForIP.simps) (simp add: a)
qed

lemma waitForIP_skip:
  "(\<And>j. j < n \<Longrightarrow> nonMatching ticks targetIP (k + j)) \<Longrightarrow>
   waitForIP ticks targetIP k = waitForIP ticks targetIP (k + n)"
proof (induction n)
  case 0
  then show ?case by simp
next
  case (Suc n)
  then have "waitForIP ticks targetIP k = waitForIP ticks targetIP (k + n)" by simp
  also have "\<dots> = waitForIP ticks targetIP (Suc (k + n))"
    using Suc.prems [of n] by (intro waitForIP_step) simp
  finally show ?case by simp
qed

lemma waitForIP_returns:
  assumes "waitForIP ticks targetIP k = Some y"
  shows "\<exists>j\<ge>k. \<not> nonMatching ticks targetIP j"
proof (rule waitForIP.raw_induct
    [where P = "\<lambda>ticks targetIP k y. \<exists>j\<ge>k. \<not> nonMatching ticks targetIP j"
       and ticks = ticks and targetIP = targetIP and k = k and y = y, rotated, OF assms])
  fix f :: "(nat \<Rightarrow> tick) \<Rightarrow> string \<Rightarrow> nat \<Rightarrow> (nat \<times> error option) option"
  fix ticks targetIP k y
  assume IH: "\<And>ticks targetIP k y. f ticks targetIP k = Some y
                \<Longrightarrow> \<exists>j\<ge>k. \<not> nonMatching ticks targetIP j"
  assume body: "(case ticks k of
                   CtxDone \<Rightarrow> Some (k, Some Canceled)
                 | TickerC (Inl err) \<Rightarrow> Some (Suc k, Some err)
                 | TickerC (Inr ipAddress) \<Rightarrow>
                     if ipAddress = targetIP then Some (Suc k, None)
                     else f ticks targetIP (Suc k)) = Some y"
  show "\<exists>j\<ge>k. \<not> nonMatching ticks targetIP j"
  proof (cases "nonMatching ticks targetIP k")
    case False
    then show ?thesis by blast
  next
    case True
    then obtain a where a: "ticks k = TickerC (Inr a)" "a \<noteq> targetIP"
      by (rule nonMatchingE)
    with body have next_round: "f ticks targetIP (Suc k) = Some y"
      by simp
    have "\<exists>j\<ge>Suc k. \<not> nonMatching ticks targetIP j"
      by (rule IH [OF next_round])
    then obtain j where "Suc k \<le> j" and j: "\<not> nonMatching ticks targetIP j"
      by (elim exE conjE)
    then have "k \<le> j" by simp
    with j show ?thesis by (intro exI [of _ j] conjI)
  qed
qed

lemma waitForIP_forever:
  assumes "\<And>j. nonMatching ticks targetIP j"
  shows "waitForIP ticks targetIP k = None"
proof (cases "waitForIP ticks targetIP k")
  case None
  then show ?thesis .
next
  case (Some y)
  from waitForIP_returns [OF this] assms show ?thesis by blast
qed

text \<open>A loop that never returns reads an address other than the target at every round.\<close>

lemma waitForIP_unending:
  assumes "waitForIP ticks targetIP k = None"
  shows "nonMatching ticks targetIP (k + j)"
proof (rule ccontr)
  assume "\<not> nonMatching ticks targetIP (k + j)"
  then have "\<exists>n. \<not> nonMatching ticks targetIP (k + n)"
    by blast
  then obtain n where n: "\<not> nonMatching ticks targetIP (k + n)"
    and least: "\<forall>m<n. nonMatching ticks targetIP (k + m)"
    using exists_least_iff [of "\<lambda>n. \<not> nonMatching ticks targetIP (k + n)"] by blast
  from least have "waitForIP ticks targetIP k = waitForIP ticks targetIP (k + n)"
    by (intro waitForIP_skip) simp
  moreover have "waitForIP ticks targetIP (k + n) \<noteq> None"
    using n by (subst waitForIP.simps) (auto simp: nonMatching_def split: tick.splits sum.splits)
  ultimately show False
    using assms by simp
qed

lemma waitForIP_first:
  assumes "\<And>j. j < n \<Longrightarrow> nonMatching ticks targetIP j"
  shows "waitForIP ticks targetIP 0 =
           (case ticks n of
              CtxDone \<Rightarrow> Some (n, Some Canceled)
            | TickerC (Inl err) \<Rightarrow> Some (Suc n, Some err)
            | TickerC (Inr a) \<Rightarrow> if a = targetIP then Some (Suc n, None)
                                 else waitForIP ticks targetIP (Suc n))"
proof -
  have "waitForIP ticks targetIP 0 = waitForIP ticks targetIP n"
    using waitForIP_skip [of n ticks targetIP 0] assms by simp
  also have "\<dots> = (case ticks n of
              CtxDone \<Rightarrow> Some (n, Some Canceled)
            | TickerC (Inl err) \<Rightarrow> Some (Suc n, Some err)
            | TickerC (Inr a) \<Rightarrow> if a = targetIP then Some (Suc n, None)
                                 else waitForIP ticks targetIP (Suc n))"
    by (subst waitForIP.simps) simp
  finally show ?thesis .
qed

lemma waitForIP_success:
  assumes ret: "waitForIP ticks targetIP 0 = Some (k, None)"
  shows "\<exists>m. k = Suc m \<and> ticks m = TickerC (Inr targetIP) \<and> (\<forall>j<m. nonMatching ticks targetIP j)"
proof -
  have first: "waitForIP ticks targetIP 0 =
           (case ticks m of
              CtxDone \<Rightarrow> Some (m, Some Canceled)
            | TickerC (Inl err) \<Rightarrow> Some (Suc m, Some err)
            | TickerC (Inr a) \<Rightarrow> if a = targetIP then Some (Suc m, None)
                                 else waitForIP ticks targetIP (Suc m))"
    if "\<forall>j<m. nonMatching ticks targetIP j" for m
    using that by (intro waitForIP_first) simp
  from waitForIP_returns [OF ret] have "\<exists>j. \<not> nonMatching ticks targetIP j"
    by blast
  then obtain m where m: "\<not> nonMatching ticks targetIP m"
    and least: "\<forall>j<m. nonMatching ticks targetIP j"
    using exists_least_iff [of "\<lambda>j. \<not> nonMatching ticks targetIP j"] by blast
  show ?thesis
  proof (cases "ticks m")
    case CtxDone
    with first [OF least] ret show ?thesis by simp
  next
    case (TickerC r)
    show ?thesis
    proof (cases r)
      case (Inl err)
      with TickerC first [OF least] ret show ?thesis by simp
    next
      case (Inr a)
      with TickerC m have "a = targetIP" by (simp add: nonMatching_def)
      with Inr TickerC first [OF least] ret least show ?thesis by auto
    qed
  qed
qed

lemma concat_singletons:
  "(\<And>j. j < k \<Longrightarrow> g j = [x]) \<Longrightarrow> concat (map g [0 ..< k]) = replicate k x"
proof (induction k)
  case 0
  then show ?case by simp
next
  case (Suc k)
  then have "concat (map g [0 ..< k]) = replicate k x" and "g k = [x]"
    by simp_all
  then show ?case
    by (simp add: replicate_append_same)
qed

lemma guestReads_matching:
  assumes "\<And>j. j < n \<Longrightarrow> nonMatching ticks targetIP j" and "ticks n = TickerC (Inr targetIP)"
  shows "guestReads ticks (Suc n) = replicate (Suc n) (GuestProperties, None)"
  unfolding guestReads_def
proof (rule concat_singletons)
  fix j assume "j < Suc n"
  then consider "j < n" | "j = n" by linarith
  then show "(case ticks j of CtxDone \<Rightarrow> [] | TickerC r \<Rightarrow> [(GuestProperties, errorOf r)])
               = [(GuestProperties, None)]"
  proof cases
    case 1
    with assms(1) have "nonMatching ticks targetIP j" by simp
    then obtain a where "ticks j = TickerC (Inr a)"
      by (rule nonMatchingE)
    then show ?thesis by (simp add: errorOf_def)
  next
    case 2
    with assms(2) show ?thesis by (simp add: errorOf_def)
  qed
qed

text \<open>
  Claim C8.  Let the first \<open>n\<close> rounds of the \<^verbatim>\<open>select\<close> each read an address other
  than the target.  If round \<open>n\<close> reads the target, \<^verbatim>\<open>waitForIP\<close> returns nil after
  \<open>n + 1\<close> readings of the guest property; if round \<open>n\<close> finds the context done, it
  returns the cancellation error; if the reading of round \<open>n\<close> fails, it returns that
  error.  It returns nil only by reading the target.  There is no bound on \<open>n\<close>, and
  when every round reads another address the loop never returns.
\<close>

theorem waitForIP_poll:
  "((\<forall>j<n. nonMatching ticks targetIP j) \<longrightarrow>
      (ticks n = TickerC (Inr targetIP) \<longrightarrow>
         waitForIP ticks targetIP 0 = Some (Suc n, None)
         \<and> waitForIPRun ticks targetIP = (replicate (Suc n) (GuestProperties, None), Some (Inr None)))
      \<and> (ticks n = CtxDone \<longrightarrow> waitForIP ticks targetIP 0 = Some (n, Some Canceled))
      \<and> (\<forall>err. ticks n = TickerC (Inl err) \<longrightarrow> waitForIP ticks targetIP 0 = Some (Suc n, Some err)))
   \<and> ((\<forall>j. nonMatching ticks targetIP j) \<longrightarrow> waitForIP ticks targetIP 0 = None)
   \<and> (waitForIP ticks targetIP 0 = Some (k, None) \<longleftrightarrow>
        (\<exists>m. k = Suc m \<and> ticks m = TickerC (Inr targetIP) \<and> (\<forall>j<m. nonMatching ticks targetIP j)))"
proof -
  have first: "waitForIP ticks targetIP 0 =
           (case ticks m of
              CtxDone \<Rightarrow> Some (m, Some Canceled)
            | TickerC (Inl err) \<Rightarrow> Some (Suc m, Some err)
            | TickerC (Inr a) \<Rightarrow> if a = targetIP then Some (Suc m, None)
                                 else waitForIP ticks targetIP (Suc m))"
    if "\<forall>j<m. nonMatching ticks targetIP j" for m
    using that by (intro waitForIP_first) simp
  have found: "waitForIP ticks targetIP 0 = Some (Suc m, None)"
    if "\<forall>j<m. nonMatching ticks targetIP j" and "ticks m = TickerC (Inr targetIP)" for m
    using first [OF that(1)] that(2) by simp
  have run: "waitForIPRun ticks targetIP = (replicate (Suc n) (GuestProperties, None), Some (Inr None))"
    if "\<forall>j<n. nonMatching ticks targetIP j" and "ticks n = TickerC (Inr targetIP)"
    using found [OF that] guestReads_matching [of n ticks targetIP] that
    by (simp add: waitForIPRun_def)
  have cancelled: "waitForIP ticks targetIP 0 = Some (n, Some Canceled)"
    if "\<forall>j<n. nonMatching ticks targetIP j" and "ticks n = CtxDone"
    using first [OF that(1)] that(2) by simp
  have failed: "waitForIP ticks targetIP 0 = Some (Suc n, Some err)"
    if "\<forall>j<n. nonMatching ticks targetIP j" and "ticks n = TickerC (Inl err)" for err
    using first [OF that(1)] that(2) by simp
  have forever: "waitForIP ticks targetIP 0 = None" if "\<forall>j. nonMatching ticks targetIP j"
    using that by (intro waitForIP_forever) simp
  have only: "\<exists>m. k = Suc m \<and> ticks m = TickerC (Inr targetIP) \<and> (\<forall>j<m. nonMatching ticks targetIP j)"
    if "waitForIP ticks targetIP 0 = Some (k, None)"
    using that by (rule waitForIP_success)
  show ?thesis
    using found run cancelled failed forever only by blast
qed

theorem waitForIP_poll_witness:
  "waitForIP (guestIP exampleWorld) ''10.0.0.50'' 0 = Some (3, None)
   \<and> waitForIPRun (guestIP exampleWorld) ''10.0.0.50''
       = ([(GuestProperties, None), (GuestProperties, None), (GuestProperties, None)], Some (Inr None))
   \<and> waitForIP (\<lambda>k. if k < 2 then TickerC (Inr []) else CtxDone) ''10.0.0.50'' 0 = Some (2, Some Canceled)
   \<and> waitForIP (\<lambda>k. TickerC (Inr [])) ''10.0.0.50'' 0 = None"
proof -
  let ?ticks = "guestIP exampleWorld"
  have t: "?ticks = (\<lambda>k. if k < 2 then TickerC (Inr []) else TickerC (Inr ''10.0.0.50''))"
    by (simp add: exampleWorld_def)
  have before: "\<forall>j<2. nonMatching ?ticks ''10.0.0.50'' j"
    unfolding t by (simp add: nonMatching_def)
  have at: "?ticks 2 = TickerC (Inr ''10.0.0.50'')"
    unfolding t by simp
  from waitForIP_poll [of 2 ?ticks "''10.0.0.50''"] before at
  have a: "waitForIP ?ticks ''10.0.0.50'' 0 = Some (Suc 2, None)"
    and b: "waitForIPRun ?ticks ''10.0.0.50'' = (replicate (Suc 2) (GuestProperties, None), Some (Inr None))"
    by blast+
  let ?cancel = "\<lambda>k::nat. if k < 2 then TickerC (Inr []) else CtxDone"
  have "\<forall>j<2. nonMatching ?cancel ''10.0.0.50'' j" and "?cancel 2 = CtxDone"
    by (simp_all add: nonMatching_def)
  with waitForIP_poll [of 2 ?cancel "''10.0.0.50''"]
  have c: "waitForIP ?cancel ''10.0.0.50'' 0 = Some (2, Some Canceled)"
    by blast
  let ?never = "\<lambda>k::nat. TickerC (Inr [] :: error + string)"
  have "\<forall>j. nonMatching ?never ''10.0.0.50'' j"
    by (simp add: nonMatching_def)
  with waitForIP_poll [of 0 ?never "''10.0.0.50''"]
  have d: "waitForIP ?never ''10.0.0.50'' 0 = None"
    by blast
  from a b c d show ?thesis
    by (simp add: numeral_3_eq_3)
qed

section \<open>The worker's failure policy\<close>

lemma accounted_later:
  "accounted c err (Some (Inr x) :: (outcome + 'a) option) \<Longrightarrow> accounted c err (res :: (outcome + 'b) option)"
  by (auto simp: accounted_def)

lemma accounted_ended:
  "accounted c err (Some (Inl out) :: (outcome + 'a) option)
     \<Longrightarrow> accounted c err (Some (Inl out) :: (outcome + 'b) option)"
  by (simp add: accounted_def)

lemma accounted_unending:
  "accounted c err (None :: (outcome + 'a) option) \<Longrightarrow> accounted c err (res :: (outcome + 'b) option)"
  by (auto simp: accounted_def)

lemma policy_finish [simp]: "policy (finish out)"
  by (simp add: policy_def finish_def)

lemma policy_fatalf [simp]: "policy (fatalf msg)"
  by (simp add: fatalf_def)

lemma policy_panic [simp]: "policy (panic msg)"
  by (simp add: panic_def)

lemma policy_continue [simp]: "policy (continue x)"
  by (simp add: policy_def continue_def)

lemma policy_andThen:
  assumes "policy m" and "\<And>x. snd m = Some (Inr x) \<Longrightarrow> policy (k x)"
  shows "policy (andThen m k)"
  unfolding policy_def
proof (intro allI impI)
  fix c err
  assume ev: "(c, Some err) \<in> set (fst (andThen m k))"
  obtain tr1 r1 where m: "m = (tr1, r1)"
    by (cases m)
  show "accounted c err (snd (andThen m k))"
  proof (cases r1)
    case None
    with m have run: "andThen m k = (tr1, None)"
      by (simp add: andThen_def)
    from ev assms(1) have "accounted c err (None :: (outcome + 'a) option)"
      by (simp add: andThen_def m None policy_def)
    then show ?thesis
      by (rule accounted_unending)
  next
    case (Some r)
    show ?thesis
    proof (cases r)
      case (Inl out)
      with m Some have run: "andThen m k = (tr1, Some (Inl out))"
        by (simp add: andThen_def)
      from ev assms(1) have "accounted c err (Some (Inl out) :: (outcome + 'a) option)"
        by (simp add: andThen_def m Some Inl policy_def)
      then show ?thesis
        by (simp add: run accounted_ended)
    next
      case (Inr x)
      obtain tr2 r2 where k: "k x = (tr2, r2)"
        by (cases "k x")
      with m Some Inr have run: "andThen m k = (tr1 @ tr2, r2)"
        by (simp add: andThen_def)
      from ev run consider "(c, Some err) \<in> set tr1" | "(c, Some err) \<in> set tr2"
        by auto
      then show ?thesis
      proof cases
        case 1
        with assms(1) have "accounted c err (Some (Inr x) :: (outcome + 'a) option)"
          by (simp add: m Some Inr policy_def)
        then show ?thesis
          by (rule accounted_later)
      next
        case 2
        moreover from assms(2) [of x] m Some Inr have "policy (k x)"
          by simp
        ultimately show ?thesis
          using k by (simp add: run policy_def)
      qed
    qed
  qed
qed

text \<open>A call and the test of its error.\<close>

lemma policy_perform:
  assumes "\<And>v. r = Inr v \<Longrightarrow> policy (k r)"
    and "\<And>err. r = Inl err \<Longrightarrow>
           (\<exists>out. k r = finish out \<and> accounted c err (Some (Inl out) :: (outcome + 'b) option))
           \<or> (accounted c err (Some (Inr ()) :: (outcome + unit) option) \<and> policy (k r))"
  shows "policy (andThen (perform c r) k :: 'b run)"
proof (cases r)
  case (Inr v)
  with assms(1) have "policy (k r)" by simp
  with Inr show ?thesis
    by (auto simp: policy_def andThen_def perform_def errorOf_def split: prod.splits)
next
  case (Inl e)
  from assms(2) [OF this] show ?thesis
  proof
    assume "\<exists>out. k r = finish out \<and> accounted c e (Some (Inl out) :: (outcome + 'b) option)"
    with Inl show ?thesis
      by (auto simp: policy_def andThen_def perform_def errorOf_def finish_def)
  next
    assume a: "accounted c e (Some (Inr ()) :: (outcome + unit) option) \<and> policy (k r)"
    then have "\<And>res :: (outcome + 'b) option. accounted c e res"
      by (auto intro: accounted_later)
    with a Inl show ?thesis
      by (auto simp: policy_def andThen_def perform_def errorOf_def split: prod.splits)
  qed
qed

lemma policy_fatal_step:
  assumes "fatalOnError c" and "\<not> returnsOnError c"
    and "\<And>err. r = Inl err \<Longrightarrow> k r \<in> range fatalf"
    and "\<And>v. r = Inr v \<Longrightarrow> policy (k r)"
  shows "policy (andThen (perform c r) k)"
proof (rule policy_perform)
  fix err assume "r = Inl err"
  from assms(3) [OF this] obtain msg where "k r = finish (Aborted (Fatal msg))"
    by (auto simp: fatalf_def)
  moreover have "accounted c err (Some (Inl (Aborted (Fatal msg))))"
    using assms(2) by (simp add: accounted_def)
  ultimately show "(\<exists>out. k r = finish out \<and> accounted c err (Some (Inl out)))
           \<or> (accounted c err (Some (Inr ())) \<and> policy (k r))"
    by blast
qed (rule assms(4))

lemma policy_return_step:
  assumes "returnsOnError c" and "\<not> fatalOnError c"
    and "\<And>err. r = Inl err \<Longrightarrow> k r = finish (ReturnedError err) \<or> (notFoundVM c err \<and> policy (k r))"
    and "\<And>v. r = Inr v \<Longrightarrow> policy (k r)"
  shows "policy (andThen (perform c r) k)"
proof (rule policy_perform)
  fix err assume "r = Inl err"
  from assms(3) [OF this] show "(\<exists>out. k r = finish out \<and> accounted c err (Some (Inl out)))
           \<or> (accounted c err (Some (Inr ())) \<and> policy (k r))"
    using assms(2) by (auto simp: accounted_def)
qed (rule assms(4))

lemma policy_unchecked_step:
  assumes "\<not> returnsOnError c" and "\<not> fatalOnError c" and "policy (k r)"
  shows "policy (andThen (perform c r) k)"
proof (rule policy_perform)
  fix err assume "r = Inl err"
  show "(\<exists>out. k r = finish out \<and> accounted c err (Some (Inl out)))
           \<or> (accounted c err (Some (Inr ())) \<and> policy (k r))"
    using assms by (simp add: accounted_def)
qed (rule assms(3))

lemma policy_decideGuestId: "policy (decideGuestId w isoName)"
  unfolding decideGuestId_def
  apply (rule policy_fatal_step; simp)
  apply (rule policy_fatal_step; simp)
  apply (simp split: sum.splits)
  done

lemma policy_addNetworks: "policy (addNetworks w bootPortGroup i names devices)"
proof (induction names arbitrary: i devices)
  case Nil
  show ?case by simp
next
  case (Cons name rest)
  obtain portGroup where pg: "(if i = 0 then bootPortGroup else name) = portGroup"
    by simp
  show ?case
    unfolding addNetworks.simps Let_def pg
    apply (rule policy_fatal_step; simp)
    apply (rule policy_fatal_step; simp)
    apply (rule Cons.IH)
    done
qed

lemma policy_waitForIP:
  assumes "\<And>err. k (Some err) \<in> range fatalf" and "policy (k None)"
  shows "policy (andThen (waitForIPRun ticks targetIP) k)"
proof (cases "waitForIP ticks targetIP 0")
  case None
  then show ?thesis
    by (simp add: waitForIPRun_def andThen_def policy_def)
next
  case (Some y)
  obtain n err where y: "y = (n, err)" by (cases y)
  show ?thesis
  proof (cases err)
    case None
    with Some y waitForIP_success [of ticks targetIP n] obtain m where
      "n = Suc m" "ticks m = TickerC (Inr targetIP)" "\<forall>j<m. nonMatching ticks targetIP j"
      by auto
    then have "guestReads ticks n = replicate n (GuestProperties, None)"
      using guestReads_matching [of m ticks targetIP] by simp
    with Some y None
    have run: "waitForIPRun ticks targetIP = (replicate n (GuestProperties, None), Some (Inr None))"
      by (simp add: waitForIPRun_def)
    have "policy (waitForIPRun ticks targetIP)"
      unfolding run by (simp add: policy_def)
    then show ?thesis
      by (rule policy_andThen) (simp add: run assms(2))
  next
    case (Some e)
    with \<open>waitForIP ticks targetIP 0 = Some y\<close> y
    have run: "waitForIPRun ticks targetIP = (guestReads ticks n, Some (Inr (Some e)))"
      by (simp add: waitForIPRun_def)
    from assms(1) [of e] obtain msg where k: "k (Some e) = ([], Some (Inl (Aborted (Fatal msg))))"
      by (auto simp: fatalf_def finish_def)
    have reads: "c = GuestProperties" if "(c, x) \<in> set (guestReads ticks n)" for c x
      using that by (auto simp: guestReads_def split: tick.splits)
    show ?thesis
      unfolding policy_def
      by (auto simp: run k andThen_def accounted_def dest: reads)
  qed
qed

lemma waitPoweredOff_skip:
  "(\<And>j. j < n \<Longrightarrow> states (k + j) = Inr False) \<Longrightarrow>
   waitPoweredOff states k = waitPoweredOff states (k + n)"
proof (induction n)
  case 0
  then show ?case by simp
next
  case (Suc n)
  then have "waitPoweredOff states k = waitPoweredOff states (k + n)" by simp
  also have "\<dots> = waitPoweredOff states (Suc (k + n))"
    using Suc.prems [of n] by (subst waitPoweredOff.simps) simp
  finally show ?case by simp
qed

text \<open>A power-state poll that never returns reads a machine that is not off at every
  round.\<close>

lemma waitPoweredOff_unending:
  assumes "waitPoweredOff states k = None"
  shows "states (k + j) = Inr False"
proof (rule ccontr)
  assume "states (k + j) \<noteq> Inr False"
  then have "\<exists>n. states (k + n) \<noteq> Inr False"
    by blast
  then obtain n where n: "states (k + n) \<noteq> Inr False"
    and least: "\<forall>m<n. states (k + m) = Inr False"
    using exists_least_iff [of "\<lambda>n. states (k + n) \<noteq> Inr False"] by blast
  from least have "waitPoweredOff states k = waitPoweredOff states (k + n)"
    by (intro waitPoweredOff_skip) simp
  moreover have "waitPoweredOff states (k + n) \<noteq> None"
    using n by (subst waitPoweredOff.simps) (auto split: sum.splits)
  ultimately show False
    using assms by simp
qed

lemma waitPoweredOff_reads:
  assumes "waitPoweredOff states k0 = Some y"
  shows "k0 < fst y \<and> (\<forall>j. k0 \<le> j \<and> Suc j < fst y \<longrightarrow> states j = Inr False)
         \<and> errorOf (states (fst y - 1)) = snd y"
proof (rule waitPoweredOff.raw_induct
    [where P = "\<lambda>states k0 y. k0 < fst y \<and> (\<forall>j. k0 \<le> j \<and> Suc j < fst y \<longrightarrow> states j = Inr False)
         \<and> errorOf (states (fst y - 1)) = snd y"
       and states = states and k = k0 and y = y, rotated, OF assms])
  fix f :: "(nat \<Rightarrow> error + bool) \<Rightarrow> nat \<Rightarrow> (nat \<times> error option) option"
  fix states k0 y
  assume IH: "\<And>states k0 y. f states k0 = Some y \<Longrightarrow>
                k0 < fst y \<and> (\<forall>j. k0 \<le> j \<and> Suc j < fst y \<longrightarrow> states j = Inr False)
                \<and> errorOf (states (fst y - 1)) = snd y"
  assume body: "(case states k0 of
                   Inl err \<Rightarrow> Some (Suc k0, Some err)
                 | Inr poweredOff \<Rightarrow>
                     if poweredOff then Some (Suc k0, None) else f states (Suc k0)) = Some y"
  show "k0 < fst y \<and> (\<forall>j. k0 \<le> j \<and> Suc j < fst y \<longrightarrow> states j = Inr False)
         \<and> errorOf (states (fst y - 1)) = snd y"
  proof (cases "states k0")
    case (Inl err)
    with body show ?thesis by (auto simp: errorOf_def)
  next
    case (Inr poweredOff)
    show ?thesis
    proof (cases poweredOff)
      case True
      with Inr body show ?thesis by (auto simp: errorOf_def)
    next
      case False
      with Inr body have "f states (Suc k0) = Some y" by simp
      from IH [OF this] have a: "Suc k0 < fst y"
        and b: "\<forall>j. Suc k0 \<le> j \<and> Suc j < fst y \<longrightarrow> states j = Inr False"
        and c: "errorOf (states (fst y - 1)) = snd y"
        by blast+
      have "states j = Inr False" if "k0 \<le> j" "Suc j < fst y" for j
      proof (cases "j = k0")
        case True
        with Inr False show ?thesis by simp
      next
        case False
        with that b show ?thesis by simp
      qed
      with a c show ?thesis by simp
    qed
  qed
qed

lemma policy_waitPoweredOff:
  assumes "\<And>err. k (Some err) \<in> range fatalf" and "policy (k None)"
  shows "policy (andThen (waitPoweredOffRun states) k)"
proof (cases "waitPoweredOff states 0")
  case None
  then show ?thesis
    by (simp add: waitPoweredOffRun_def andThen_def policy_def)
next
  case (Some y)
  obtain n err where y: "y = (n, err)" by (cases y)
  let ?reads = "map (\<lambda>j. (RetrievePowerState, errorOf (states j))) [0 ..< n]"
  from Some y have run: "waitPoweredOffRun states = (?reads, Some (Inr err))"
    by (simp add: waitPoweredOffRun_def)
  from waitPoweredOff_reads [OF Some] y have pos: "0 < n"
    and before: "\<forall>j. Suc j < n \<longrightarrow> states j = Inr False"
    and last: "errorOf (states (n - 1)) = err"
    by simp_all
  show ?thesis
  proof (cases err)
    case None
    have "errorOf (states j) = None" if "j < n" for j
    proof (cases "Suc j < n")
      case True
      with before show ?thesis by (simp add: errorOf_def)
    next
      case False
      with that have "j = n - 1" by simp
      with last None show ?thesis by simp
    qed
    then have "policy (waitPoweredOffRun states)"
      unfolding run by (auto simp: policy_def)
    then show ?thesis
      by (rule policy_andThen) (simp add: run None assms(2))
  next
    case (Some e)
    from assms(1) [of e] obtain msg where k: "k (Some e) = ([], Some (Inl (Aborted (Fatal msg))))"
      by (auto simp: fatalf_def finish_def)
    show ?thesis
      unfolding policy_def
      by (auto simp: run Some k andThen_def accounted_def)
  qed
qed

lemma policy_step:
  assumes "\<And>v. r = Inr v \<Longrightarrow> policy (k r)"
    and "\<And>err. r = Inl err \<Longrightarrow>
           (if fatalOnError c then k r \<in> range fatalf
            else if returnsOnError c
              then k r = finish (ReturnedError err) \<or> (notFoundVM c err \<and> policy (k r))
              else policy (k r))"
  shows "policy (andThen (perform c r) k)"
proof (cases "fatalOnError c")
  case True
  then have "\<not> returnsOnError c" by (cases c) simp_all
  with True assms show ?thesis by (intro policy_fatal_step) simp_all
next
  case False
  show ?thesis
  proof (cases "returnsOnError c")
    case True
    with False assms show ?thesis by (intro policy_return_step) simp_all
  next
    case nr: False
    show ?thesis
    proof (cases r)
      case (Inl err)
      with False nr assms(2) [OF Inl] show ?thesis by (intro policy_unchecked_step) simp_all
    next
      case (Inr v)
      with False nr assms(1) [OF Inr] show ?thesis by (intro policy_unchecked_step) simp_all
    qed
  qed
qed

lemma policy_changeMac: "policy (changeMac w targetIP)"
  unfolding changeMac_def
  by (auto intro!: policy_step policy_waitPoweredOff policy_waitForIP
      simp: errorOf_def split: sum.splits)

lemma policy_editInPlace: "policy (editInPlace w err)"
  unfolding editInPlace_def
  by (auto intro!: policy_step simp: errorOf_def split: sum.splits)

lemma policy_reconfigureNetwork: "policy (reconfigureNetwork w targetIP vmParam changemac)"
  unfolding reconfigureNetwork_def
  by (auto intro!: policy_step simp: policy_changeMac policy_editInPlace Let_def
      split: sum.splits list.splits)

lemma policy_createAndRegister: "policy (createAndRegister w vmName addr esxiconfig guestId)"
  unfolding createAndRegister_def
  by (auto intro!: policy_step policy_andThen [OF policy_addNetworks]
      simp: errorOf_def Let_def split: sum.splits list.splits prod.splits)

lemma policy_vmCreateHandler: "policy (vmCreateHandler w vmName addr esxiconfig changemac)"
  unfolding vmCreateHandler_def Let_def
  by (auto intro!: policy_step policy_waitForIP policy_andThen [OF policy_decideGuestId]
        policy_andThen [OF policy_createAndRegister] policy_andThen [OF policy_reconfigureNetwork]
      simp: errorOf_def notFoundVM_def split: sum.splits)

text \<open>The example world's guest reports the address at its third reading.\<close>

lemma example_waitForIP:
  "waitForIPRun (\<lambda>k. if k < 2 then TickerC (Inr []) else TickerC (Inr ''10.0.0.50'')) ''10.0.0.50''
     = ([(GuestProperties, None), (GuestProperties, None), (GuestProperties, None)], Some (Inr None))"
proof -
  let ?ticks = "\<lambda>k::nat. if k < 2 then TickerC (Inr []) else TickerC (Inr ''10.0.0.50'')"
  have "waitForIP ?ticks ''10.0.0.50'' 0 = Some (Suc 2, None)"
    by (subst waitForIP_first [of 2]) (simp_all add: nonMatching_def)
  moreover have "guestReads ?ticks (Suc 2) = replicate (Suc 2) (GuestProperties, None)"
    by (rule guestReads_matching [of 2 _ "''10.0.0.50''"]) (simp_all add: nonMatching_def)
  ultimately show ?thesis
    by (simp add: waitForIPRun_def numeral_2_eq_2)
qed

text \<open>
  Claim C1.  When vCenter answers that a machine of the host's name exists, the worker
  returns without any call that creates, powers, shuts down or reconfigures a machine
  or reaches the kickstart server.  When the vCenter URL parses and the connection and
  the datacenter lookup succeed (the lookup of the machine is then reached), its calls
  are exactly these three lookups and it ends as a skip, which does not end the
  process.
\<close>

theorem existing_host_skipped:
  assumes "virtualMachine w vmName = Inr ()"
  shows "(\<exists>tr out. vmCreateHandler w vmName addr esxiconfig changemac = (tr, Some (Inl out))
            \<and> list_all (\<lambda>ev. \<not> changesOrInstalls (fst ev)) tr)
         \<and> (urlParse w (vcenterUrl (Vcenter (Environment esxiconfig))) = Inr ()
              \<and> connect w = Inr () \<and> datacenter w = Inr () \<longrightarrow>
              vmCreateHandler w vmName addr esxiconfig changemac =
                ([(NewClient, None),
                  (FinderDatacenter (Datacenter (Vcenter (Environment esxiconfig))), None),
                  (FinderVirtualMachine vmName, None)], Some (Inl Skipped))
              \<and> \<not> processEnds Skipped)"
proof (cases "urlParse w (vcenterUrl (Vcenter (Environment esxiconfig)))")
  case (Inl err)
  then show ?thesis
    by (simp add: vmCreateHandler_def panic_def finish_def)
next
  case parsed: (Inr u)
  show ?thesis
  proof (cases "connect w")
    case (Inl err)
    with parsed show ?thesis
      by (simp add: vmCreateHandler_def andThen_def perform_def errorOf_def fatalf_def finish_def)
  next
    case connected: (Inr u')
    show ?thesis
    proof (cases "datacenter w")
      case (Inl err)
      with parsed connected show ?thesis
        by (simp add: vmCreateHandler_def andThen_def perform_def errorOf_def finish_def)
    next
      case (Inr dc)
      with parsed connected assms show ?thesis
        by (simp add: vmCreateHandler_def andThen_def perform_def errorOf_def finish_def
            processEnds_def)
    qed
  qed
qed

theorem existing_host_skipped_witness:
  "virtualMachine (exampleWorld \<lparr> virtualMachine := (\<lambda>name. Inr ()) \<rparr>) ''esxi01.lab.local'' = Inr ()
   \<and> vmCreateHandler (exampleWorld \<lparr> virtualMachine := (\<lambda>name. Inr ()) \<rparr>)
        ''esxi01.lab.local'' [10, 0, 0, 50] exampleConfig False
       = ([(NewClient, None), (FinderDatacenter ''dc1'', None),
           (FinderVirtualMachine ''esxi01.lab.local'', None)], Some (Inl Skipped))"
proof -
  let ?w = "exampleWorld \<lparr> virtualMachine := (\<lambda>name. Inr ()) \<rparr>"
  have vm: "virtualMachine ?w ''esxi01.lab.local'' = Inr ()"
    by simp
  have ok: "urlParse ?w (vcenterUrl (Vcenter (Environment exampleConfig))) = Inr ()
            \<and> connect ?w = Inr () \<and> datacenter ?w = Inr ()"
    by (simp add: exampleWorld_def)
  have dc: "Datacenter (Vcenter (Environment exampleConfig)) = ''dc1''"
    by (simp add: exampleConfig_def)
  from existing_host_skipped [OF vm, of "[10, 0, 0, 50]" exampleConfig False] ok dc vm
  show ?thesis by simp
qed

text \<open>
  Claim C2, as the code has it.  Whether the worker returns or not, a failure among
  its calls of a call of the class \<open>fatalOnError\<close> (the connection, the catalog request
  and its decoding, a network lookup or backing while the devices are built, the
  creation and its task, the device reading, the registration, power on and its task,
  a reading of the guest address, the guest shutdown, a reading of the power state, a
  task of a reconfiguration, the second power on, the deregistration) makes the worker
  end the process with \<^verbatim>\<open>log.Fatalf\<close>.  A failure of a lookup of the class
  \<open>returnsOnError\<close> (the datacenter, the machine unless it is not found, the folders,
  the folder, the resource pool) makes this worker return that error, and the process
  goes on.  In both cases the run returns: it is not one that polls for ever.
\<close>

theorem failure_policy:
  assumes "(c, Some err) \<in> set (fst (vmCreateHandler w vmName addr esxiconfig changemac))"
  shows "(fatalOnError c \<longrightarrow>
            (\<exists>msg. snd (vmCreateHandler w vmName addr esxiconfig changemac)
                      = Some (Inl (Aborted (Fatal msg)))
                   \<and> processEnds (Aborted (Fatal msg))))
         \<and> (returnsOnError c \<and> \<not> notFoundVM c err \<longrightarrow>
              snd (vmCreateHandler w vmName addr esxiconfig changemac)
                = Some (Inl (ReturnedError err))
              \<and> \<not> processEnds (ReturnedError err))"
proof -
  have "policy (vmCreateHandler w vmName addr esxiconfig changemac)"
    by (rule policy_vmCreateHandler)
  with assms have "accounted c err (snd (vmCreateHandler w vmName addr esxiconfig changemac))"
    unfolding policy_def by blast
  then show ?thesis
    by (auto simp: accounted_def processEnds_def)
qed

theorem failure_policy_witness:
  "(WaitForResult PowerOnTask, Some (OtherError ''timeout''))
      \<in> set (fst (vmCreateHandler (exampleWorld \<lparr> powerOnTask := Inl (OtherError ''timeout'') \<rparr>)
                    ''esxi01.lab.local'' [10, 0, 0, 50] exampleConfig False))
   \<and> fatalOnError (WaitForResult PowerOnTask)
   \<and> (\<exists>msg. snd (vmCreateHandler (exampleWorld \<lparr> powerOnTask := Inl (OtherError ''timeout'') \<rparr>)
                    ''esxi01.lab.local'' [10, 0, 0, 50] exampleConfig False)
               = Some (Inl (Aborted (Fatal msg))))
   \<and> (FinderResourcePool ''pool1'', Some (OtherError ''timeout''))
        \<in> set (fst (vmCreateHandler (exampleWorld \<lparr> resourcePool := Inl (OtherError ''timeout'') \<rparr>)
                      ''esxi01.lab.local'' [10, 0, 0, 50] exampleConfig False))
   \<and> returnsOnError (FinderResourcePool ''pool1'')
   \<and> snd (vmCreateHandler (exampleWorld \<lparr> resourcePool := Inl (OtherError ''timeout'') \<rparr>)
             ''esxi01.lab.local'' [10, 0, 0, 50] exampleConfig False)
       = Some (Inl (ReturnedError (OtherError ''timeout'')))"
proof -
  let ?fatal = "exampleWorld \<lparr> powerOnTask := Inl (OtherError ''timeout'') \<rparr>"
  let ?local = "exampleWorld \<lparr> resourcePool := Inl (OtherError ''timeout'') \<rparr>"
  have ev: "(WaitForResult PowerOnTask, Some (OtherError ''timeout''))
              \<in> set (fst (vmCreateHandler ?fatal ''esxi01.lab.local'' [10, 0, 0, 50] exampleConfig False))"
    by (simp add: vmCreateHandler_def createAndRegister_def decideGuestId_def guestIdOf_def
        esxiVersionOf_def createScsiController_def andThen_def perform_def errorOf_def
        finish_def fatalf_def continue_def exampleWorld_def exampleConfig_def bootMacaddress_def
        Let_def)
  from failure_policy [OF ev]
  have a: "\<exists>msg. snd (vmCreateHandler ?fatal ''esxi01.lab.local'' [10, 0, 0, 50] exampleConfig False)
                   = Some (Inl (Aborted (Fatal msg)))"
    by auto
  have ev': "(FinderResourcePool ''pool1'', Some (OtherError ''timeout''))
               \<in> set (fst (vmCreateHandler ?local ''esxi01.lab.local'' [10, 0, 0, 50] exampleConfig False))"
    by (simp add: vmCreateHandler_def andThen_def perform_def errorOf_def
        finish_def exampleWorld_def exampleConfig_def)
  from failure_policy [OF ev']
  have b: "snd (vmCreateHandler ?local ''esxi01.lab.local'' [10, 0, 0, 50] exampleConfig False)
             = Some (Inl (ReturnedError (OtherError ''timeout'')))"
    by (simp add: notFoundVM_def)
  from ev a ev' b show ?thesis
    by simp
qed

text \<open>
  The claim as worded (every failure of a backend or installer call ends the process)
  fails twice.  A datacenter lookup that fails makes the worker print the error and
  return.  And a kickstart server that answers the registration with the status
  \<^verbatim>\<open>500 Internal Server Error\<close> has failed to register the host, yet the worker
  only logs the status and runs to its last line.
\<close>

theorem failure_policy_counterexample:
  "vmCreateHandler (exampleWorld \<lparr> datacenter := Inl (OtherError ''timeout'') \<rparr>)
       ''esxi01.lab.local'' [10, 0, 0, 50] exampleConfig False
     = ([(NewClient, None), (FinderDatacenter ''dc1'', Some (OtherError ''timeout''))],
        Some (Inl (ReturnedError (OtherError ''timeout''))))
   \<and> \<not> processEnds (ReturnedError (OtherError ''timeout''))
   \<and> snd (vmCreateHandler (exampleWorld \<lparr> postKs := Inr ''500 Internal Server Error'' \<rparr>)
             ''esxi01.lab.local'' [10, 0, 0, 50] exampleConfig False)
       = Some (Inl Completed)
   \<and> \<not> processEnds Completed"
proof -
  have ip: "ipString [10, 0, 0, 50] = ''10.0.0.50''"
    by (simp add: ipString_def digits.simps digit_char_def)
  have "snd (vmCreateHandler (exampleWorld \<lparr> postKs := Inr ''500 Internal Server Error'' \<rparr>)
               ''esxi01.lab.local'' [10, 0, 0, 50] exampleConfig False)
          = Some (Inl Completed)"
    unfolding vmCreateHandler_def ip Let_def
    by (simp add: example_waitForIP createAndRegister_def decideGuestId_def guestIdOf_def
        esxiVersionOf_def createScsiController_def reconfigureNetwork_def editInPlace_def
        andThen_def perform_def errorOf_def
        finish_def fatalf_def continue_def exampleWorld_def exampleConfig_def bootMacaddress_def
        Let_def)
  then show ?thesis
    by (simp add: vmCreateHandler_def andThen_def perform_def errorOf_def finish_def
        exampleWorld_def exampleConfig_def processEnds_def)
qed


section \<open>The worker returns unless it polls for ever\<close>

lemma returns_finish [simp]: "returns (finish out)"
  by (simp add: returns_def finish_def)

lemma returns_fatalf [simp]: "returns (fatalf msg)"
  by (simp add: fatalf_def)

lemma returns_panic [simp]: "returns (panic msg)"
  by (simp add: panic_def)

lemma returns_continue [simp]: "returns (continue x)"
  by (simp add: returns_def continue_def)

lemma returns_andThen:
  assumes "returns m" and "\<And>x. snd m = Some (Inr x) \<Longrightarrow> returns (k x)"
  shows "returns (andThen m k)"
  using assms
  by (cases m) (auto simp: returns_def andThen_def split: option.splits sum.splits prod.splits)

lemma returns_perform:
  assumes "returns (k r)"
  shows "returns (andThen (perform c r) k)"
  using assms by (intro returns_andThen) (simp_all add: returns_def perform_def)

lemma returns_waitForIPRun:
  assumes "\<not> nonMatching ticks targetIP j"
  shows "returns (waitForIPRun ticks targetIP)"
proof (cases "waitForIP ticks targetIP 0")
  case None
  from waitForIP_unending [OF this, of j] assms show ?thesis by simp
next
  case (Some y)
  then show ?thesis
    by (simp add: returns_def waitForIPRun_def split: prod.splits)
qed

lemma returns_waitPoweredOffRun:
  assumes "states j \<noteq> Inr False"
  shows "returns (waitPoweredOffRun states)"
proof (cases "waitPoweredOff states 0")
  case None
  from waitPoweredOff_unending [OF this, of j] assms show ?thesis by simp
next
  case (Some y)
  then show ?thesis
    by (simp add: returns_def waitPoweredOffRun_def split: prod.splits)
qed

lemma returns_decideGuestId: "returns (decideGuestId w isoName)"
  unfolding decideGuestId_def
  by (auto intro!: returns_perform split: sum.splits)

lemma returns_addNetworks: "returns (addNetworks w bootPortGroup i names devices)"
proof (induction names arbitrary: i devices)
  case Nil
  show ?case by simp
next
  case (Cons name rest)
  show ?case
    unfolding addNetworks.simps Let_def
    by (auto intro!: returns_perform Cons.IH split: sum.splits)
qed

lemma returns_createAndRegister: "returns (createAndRegister w vmName addr esxiconfig guestId)"
  unfolding createAndRegister_def
  by (auto intro!: returns_perform returns_andThen [OF returns_addNetworks]
      simp: Let_def split: sum.splits list.splits prod.splits)

lemma returns_changeMac:
  assumes "powerState w j \<noteq> Inr False" and "\<not> nonMatching (guestIPAgain w) targetIP j'"
  shows "returns (changeMac w targetIP)"
proof -
  have off: "returns (waitPoweredOffRun (powerState w))"
    using assms(1) by (rule returns_waitPoweredOffRun [of "powerState w" j])
  have again: "returns (waitForIPRun (guestIPAgain w) targetIP)"
    using assms(2) by (rule returns_waitForIPRun [of "guestIPAgain w" targetIP j'])
  show ?thesis
    unfolding changeMac_def
    by (auto intro!: returns_perform returns_andThen [OF off] returns_andThen [OF again]
        simp: Let_def split: sum.splits)
qed

lemma returns_editInPlace: "returns (editInPlace w err)"
  unfolding editInPlace_def
  by (auto intro!: returns_perform split: sum.splits)

lemma returns_reconfigureNetwork:
  assumes "powerState w j \<noteq> Inr False" and "\<not> nonMatching (guestIPAgain w) targetIP j'"
  shows "returns (reconfigureNetwork w targetIP vmParam changemac)"
  unfolding reconfigureNetwork_def
  by (auto intro!: returns_perform returns_changeMac [OF assms] returns_editInPlace
      simp: Let_def split: sum.splits list.splits)

text \<open>
  Each of the worker's three polls is given a round at which it stops: a reading of
  the guest's address that is the target or fails, or a cancelled context, for the two
  address polls; a reading of the power state that is off or fails for the power
  poll.  Then the worker returns, whatever the other calls answer.
\<close>

theorem worker_returns:
  assumes "\<not> nonMatching (guestIP w) (ipString addr) j"
    and "powerState w j' \<noteq> Inr False"
    and "\<not> nonMatching (guestIPAgain w) (ipString addr) j''"
  shows "\<exists>tr out. vmCreateHandler w vmName addr esxiconfig changemac = (tr, Some out)"
proof -
  have first: "returns (waitForIPRun (guestIP w) (ipString addr))"
    using assms(1) by (rule returns_waitForIPRun [of "guestIP w" "ipString addr" j])
  have "returns (vmCreateHandler w vmName addr esxiconfig changemac)"
    unfolding vmCreateHandler_def Let_def
    by (auto intro!: returns_perform returns_andThen [OF returns_decideGuestId]
          returns_andThen [OF returns_createAndRegister]
          returns_andThen [OF first]
          returns_andThen [OF returns_reconfigureNetwork [OF assms(2,3)]]
        split: sum.splits)
  then show ?thesis
    by (cases "vmCreateHandler w vmName addr esxiconfig changemac") (auto simp: returns_def)
qed

theorem worker_returns_witness:
  "\<not> nonMatching (guestIP exampleWorld) (ipString [10, 0, 0, 50]) 2
   \<and> powerState exampleWorld 1 \<noteq> Inr False
   \<and> \<not> nonMatching (guestIPAgain exampleWorld) (ipString [10, 0, 0, 50]) 0
   \<and> (\<exists>tr out. vmCreateHandler exampleWorld ''esxi01.lab.local'' [10, 0, 0, 50] exampleConfig True
                  = (tr, Some out))"
proof -
  have ip: "ipString [10, 0, 0, 50] = ''10.0.0.50''"
    by (simp add: ipString_def digits.simps digit_char_def)
  have a: "\<not> nonMatching (guestIP exampleWorld) (ipString [10, 0, 0, 50]) 2"
    and b: "powerState exampleWorld 1 \<noteq> Inr False"
    and c: "\<not> nonMatching (guestIPAgain exampleWorld) (ipString [10, 0, 0, 50]) 0"
    by (simp_all add: ip nonMatching_def exampleWorld_def)
  from worker_returns [OF a b c] a b c show ?thesis
    by blast
qed


section \<open>The names of the replicas\<close>











lemma Split_first: "c \<notin> set p \<Longrightarrow> Split (p @ c # rest) c = p # Split rest c"
  by (induction p) auto


























section \<open>A start address that does not parse\<close>

text \<open>
  A configuration whose three addresses do not parse passes the validation, and
  \<^verbatim>\<open>main\<close> then crashes at the first replica: the start address is nil and
  \<^verbatim>\<open>ip[3]\<close> is out of range.
\<close>

theorem main_unparsable_addresses:
  assumes "ParseIP (StartIP (EsxiInfo esxiconfig)) = []"
    and "ParseIP (Netmask (EsxiInfo esxiconfig)) = []"
    and "ParseIP (Gateway (EsxiInfo esxiconfig)) = []"
    and "calcurateNamePrefix (NamePrefix (EsxiInfo esxiconfig)) = Inr (n, hostNamePrefix)"
    and "0 < Replica (EsxiInfo esxiconfig)"
  shows "main ParseIP esxiconfig = Inl (Panic ''index out of range [3] with length 0'')"
proof -
  have valid: "validateNetworkAddr ParseIP esxiconfig = None"
    using assms(1,2,3) by (simp add: validateNetworkAddr_def To4_def Mask_def Equal_def)
  from assms(5) obtain k where k: "nat (Replica (EsxiInfo esxiconfig)) = Suc k"
    by (cases "nat (Replica (EsxiInfo esxiconfig))") auto
  show ?thesis
    using assms(1,4) by (simp add: main_def valid k To4_def allocateIP_def)
qed

theorem main_unparsable_addresses_witness:
  "dottedQuad ''start'' = [] \<and> dottedQuad ''mask'' = [] \<and> dottedQuad ''gateway'' = []
   \<and> main dottedQuad (withAddresses ''start'' ''mask'' ''gateway'')
       = Inl (Panic ''index out of range [3] with length 0'')"
proof -
  let ?c = "withAddresses ''start'' ''mask'' ''gateway''"
  have s: "dottedQuad ''start'' = []" and m: "dottedQuad ''mask'' = []" and g: "dottedQuad ''gateway'' = []"
    by code_simp+
  have name: "calcurateNamePrefix (NamePrefix (EsxiInfo ?c)) = Inr (1, ''esxi%02d'')"
    by code_simp
  have "main dottedQuad ?c = Inl (Panic ''index out of range [3] with length 0'')"
    by (rule main_unparsable_addresses [OF _ _ _ name])
       (simp_all add: withAddresses_def exampleConfig_def s m g)
  with s m g show ?thesis by blast
qed


end
